theory Spec2Isabelle
  imports Main "HOL-Library.Word"
begin

unbundle bit_operations_syntax

section \<open>Data model\<close>

text \<open>
  The proxy session of \<^verbatim>\<open>session.ts\<close> (stored as \<^verbatim>\<open>src/unnamed/part_000\<close>), the
  datagram codec of \<^verbatim>\<open>protocol/online/datagram.ts\<close> and the encryption helper of
  \<^verbatim>\<open>node/src/encrypt.ts\<close>. JavaScript numbers that count things are \<open>nat\<close>, the MTU
  (which the code subtracts from) is \<open>int\<close>, bytes are \<open>8 word\<close>. A field whose name the
  source shares between two classes carries a prefix here (\<open>split_index\<close> for
  \<^verbatim>\<open>split.index\<close>, \<open>mem_id\<close> for \<^verbatim>\<open>SplitMemory.id\<close>, \<open>w_start\<close> for
  \<^verbatim>\<open>window.start\<close>); the leading underscore of the session's fields is dropped.
\<close>

type_synonym byte = "8 word"
type_synonym bytes = "byte list"

datatype Origin = Client | Server

datatype SessionState = Offline | Online | Encrypted

text \<open>
  Every \<^verbatim>\<open>throw\<close> of the source is a value: \<open>NoIndex\<close>, \<open>DuplicateIndex\<close>,
  \<open>TooManySplits\<close> and \<open>EventError\<close> are its four \<^verbatim>\<open>Error(...)\<close>; \<open>TypeError\<close> is a
  property read on \<^verbatim>\<open>undefined\<close>; \<open>Malformed\<close> is a short read of the buffer;
  \<open>Hangs\<close> stands for a loop that never ends. \<open>RangeError\<close> and \<open>CipherError\<close> are
  what Node's \<^verbatim>\<open>createCipheriv\<close> throws: the first for a key of the wrong length, the
  second for an algorithm it does not know and for an initialisation vector it cannot use.
\<close>

datatype error =
  NoIndex | DuplicateIndex | TooManySplits | EventError | TypeError | Malformed | Hangs
  | RangeError | CipherError

record Split =
  split_count :: nat
  split_id :: nat
  split_index :: nat

record EncapsulatedPacket =
  reliability :: nat
  sub :: bytes
  index :: "nat option"
  sequence :: "nat option"
  order :: "nat option"
  split :: "Split option"

record SplitMemory =
  mem_id :: nat
  mem_packets :: "EncapsulatedPacket list"

record Window =
  w_start :: nat
  w_end :: nat

record Datagram =
  headerFlags :: byte
  seqNumber :: nat
  packets :: "EncapsulatedPacket list"

definition flag_valid :: byte where
  "flag_valid = 0x80"

definition flag_ack :: byte where
  "flag_ack = 0x40"

definition flag_nak :: byte where
  "flag_nak = 0x20"

fun opposite :: "Origin \<Rightarrow> Origin" where
  "opposite Client = Server"
| "opposite Server = Client"

definition inRange :: "nat \<Rightarrow> nat \<Rightarrow> nat \<Rightarrow> bool" where
  "inRange n start end' = (n \<ge> start \<and> n \<le> end')"

text \<open>
  Modelled from the spec: \<^verbatim>\<open>isReliable\<close> is imported from the protocol module,
  which is not among the sources. The specification gives it: true for the reliability
  kinds 2, 3, 4, 6 and 7.
\<close>

definition isReliable :: "nat \<Rightarrow> bool" where
  "isReliable r = (r \<in> {2, 3, 4, 6, 7})"

section \<open>The byte buffer\<close>

text \<open>
  Modelled from the spec: \<^verbatim>\<open>protocol/buffer.ts\<close> is not among the sources. The
  specification describes a byte buffer with a read cursor, a 24-bit little-endian triad,
  a raw array of \<open>n\<close> bytes, \<^verbatim>\<open>remaining\<close> for the readable bytes, and no partial read:
  a short read fails with \<open>Malformed\<close>.
\<close>

record Buffer =
  array :: bytes
  offset :: nat

definition newBuffer :: "bytes \<Rightarrow> Buffer" where
  "newBuffer data = \<lparr>array = data, offset = 0\<rparr>"

definition remaining :: "Buffer \<Rightarrow> nat" where
  "remaining b = length (array b) - offset b"

definition readArray :: "Buffer \<Rightarrow> int \<Rightarrow> error + (bytes \<times> Buffer)" where
  "readArray b n =
     (if n < 0 \<or> int (remaining b) < n then Inl Malformed
      else Inr (take (nat n) (drop (offset b) (array b)), b\<lparr>offset := offset b + nat n\<rparr>))"

definition readByte :: "Buffer \<Rightarrow> error + (byte \<times> Buffer)" where
  "readByte b =
     (if remaining b < 1 then Inl Malformed
      else Inr (array b ! offset b, b\<lparr>offset := offset b + 1\<rparr>))"

definition readLTriad :: "Buffer \<Rightarrow> error + (nat \<times> Buffer)" where
  "readLTriad b =
     (if remaining b < 3 then Inl Malformed
      else Inr (unat (array b ! offset b)
                + 256 * unat (array b ! (offset b + 1))
                + 65536 * unat (array b ! (offset b + 2)),
                b\<lparr>offset := offset b + 3\<rparr>))"

definition writeLTriad :: "nat \<Rightarrow> bytes" where
  "writeLTriad n = [of_nat (n mod 256), of_nat (n div 256 mod 256), of_nat (n div 65536 mod 256)]"

section \<open>The datagram codec (datagram.ts)\<close>

text \<open>
  \<^verbatim>\<open>EncapsulatedPacket.from\<close> and \<^verbatim>\<open>EncapsulatedPacket.to\<close> are not among the sources;
  the datagram codec takes them as the parameters \<open>dec\<close> (a reader that returns the packet
  and the buffer it leaves) and \<open>enc\<close> (the bytes a packet writes). The loop
  \<^verbatim>\<open>while (buffer.remaining)\<close> ends only when the reader consumes the buffer, so it is a
  partial function: \<open>None\<close> is a loop that never returns.
\<close>

type_synonym 'a reader = "Buffer \<Rightarrow> error + ('a \<times> Buffer)"

partial_function (option) readPackets ::
  "EncapsulatedPacket reader \<Rightarrow> Buffer \<Rightarrow> EncapsulatedPacket list
     \<Rightarrow> (error + EncapsulatedPacket list) option" where
  "readPackets dec buffer acc =
     (if remaining buffer \<noteq> 0 then
        (case dec buffer of
           Inl e \<Rightarrow> Some (Inl e)
         | Inr (p, buffer') \<Rightarrow> readPackets dec buffer' (acc @ [p]))
      else Some (Inr acc))"

definition Datagram_from ::
  "EncapsulatedPacket reader \<Rightarrow> Buffer \<Rightarrow> (error + Datagram) option" where
  "Datagram_from dec buffer =
     (case readByte buffer of
        Inl e \<Rightarrow> Some (Inl e)
      | Inr (flags, b1) \<Rightarrow>
          (case readLTriad b1 of
             Inl e \<Rightarrow> Some (Inl e)
           | Inr (seq, b2) \<Rightarrow>
               (case readPackets dec b2 [] of
                  None \<Rightarrow> None
                | Some (Inl e) \<Rightarrow> Some (Inl e)
                | Some (Inr ps) \<Rightarrow>
                    Some (Inr \<lparr>headerFlags = flags, seqNumber = seq, packets = ps\<rparr>))))"

definition Datagram_to :: "(EncapsulatedPacket \<Rightarrow> bytes) \<Rightarrow> Datagram \<Rightarrow> bytes" where
  "Datagram_to enc d =
     [flag_valid OR headerFlags d] @ writeLTriad (seqNumber d) @ concat (map enc (packets d))"

section \<open>Split memory\<close>

text \<open>
  \<^verbatim>\<open>new Array<SplitMemory>(4)\<close> is a list of four slots, \<open>None\<close> for an empty one
  (what \<^verbatim>\<open>delete splits[slot]\<close> leaves). \<^verbatim>\<open>findIndex\<close> visits every slot in order;
  its \<^verbatim>\<open>-1\<close> is \<open>None\<close>. \<open>memoryOf\<close> returns the slot, what the slot holds, and the
  table, which it has written when it allocated the slot.
\<close>

fun findIndex :: "('a \<Rightarrow> bool) \<Rightarrow> 'a list \<Rightarrow> nat option" where
  "findIndex P [] = None"
| "findIndex P (x # xs) = (if P x then Some 0 else map_option Suc (findIndex P xs))"

definition hasId :: "nat \<Rightarrow> SplitMemory option \<Rightarrow> bool" where
  "hasId i m = (case m of None \<Rightarrow> False | Some mem \<Rightarrow> mem_id mem = i)"

definition memoryOf ::
  "SplitMemory option list \<Rightarrow> nat
     \<Rightarrow> error + (nat \<times> SplitMemory option \<times> SplitMemory option list)" where
  "memoryOf splits i =
     (case findIndex (hasId i) splits of
        Some slot \<Rightarrow> Inr (slot, splits ! slot, splits)
      | None \<Rightarrow>
          (case findIndex (\<lambda>m. m = None) splits of
             None \<Rightarrow> Inl TooManySplits
           | Some slot \<Rightarrow>
               (let memory = \<lparr>mem_id = i, mem_packets = []\<rparr>
                in Inr (slot, Some memory, splits[slot := Some memory]))))"

section \<open>The session and its collaborators\<close>

record KeyPair =
  privateKey :: string
  publicKey :: string

text \<open>
  Modelled from the spec: \<^verbatim>\<open>jwt.ts\<close> is not among the sources. A token gives access
  to \<^verbatim>\<open>header.x5u\<close>, \<^verbatim>\<open>payload.salt\<close> and \<^verbatim>\<open>payload.identityPublicKey\<close>, and has
  a \<^verbatim>\<open>sign(keyPair)\<close> operation that rewrites the signature.
\<close>

record JWT =
  header_x5u :: string
  payload_salt :: string
  payload_identityPublicKey :: string
  signature :: string

record LoginPacket =
  tokens :: "JWT list"
  client :: JWT

text \<open>\<^verbatim>\<open>EncryptedBatchPacket(secret, origin)\<close> builds a batch class from a secret and an origin.\<close>

datatype BatchCodec = EncryptedBatchPacket bytes Origin

text \<open>
  What \<^verbatim>\<open>emit("data-in" | "data-out", data, origin)\<close> resolves to: \<^verbatim>\<open>"cancelled"\<close>, or
  a tuple. A component of the tuple that JavaScript treats as false (\<^verbatim>\<open>undefined\<close>,
  \<^verbatim>\<open>null\<close>, the empty string for an origin) is \<open>None\<close>; a \<^verbatim>\<open>Uint8Array\<close>, also one of
  length zero, is an object and so is \<open>Some\<close>.
\<close>

datatype emitted = Cancelled | Replaced "bytes option" "Origin option"

text \<open>What \<^verbatim>\<open>datagramOf\<close> returns: a \<^verbatim>\<open>Datagram\<close>, an \<^verbatim>\<open>ACK\<close>, a \<^verbatim>\<open>NACK\<close>, or nothing.\<close>

datatype Protocol = IsDatagram Datagram | IsACK "nat list" | IsNACK "nat list" | Ignored

text \<open>
  The functions and constants the session imports from modules that are not among the
  sources (the event emitter, the packet classes, the key agreement, the random source)
  are the fields of one record, a parameter of every function below. The readers return
  the buffer they leave, since the source's readers move the cursor of the buffer they
  are given. What the subscribers of an event answer is a function of the arguments of
  the event; the key pair and the random bytes are those of one call.
\<close>

record env =
  data_in :: "bytes \<Rightarrow> Origin \<Rightarrow> emitted"
  data_out :: "bytes \<Rightarrow> Origin \<Rightarrow> emitted"
  header :: "nat reader"
  Open2Request_id :: nat
  Open2Reply_id :: nat
  Open2Request_from :: "int reader"
  datagramOf :: "bytes \<Rightarrow> error + Protocol"
  ACK_export :: "nat list \<Rightarrow> bytes"
  EncapsulatedPacket_to :: "EncapsulatedPacket \<Rightarrow> bytes"
  BatchPacket_id :: nat
  BatchPacket_from :: "(bytes list) reader"
  BatchPacket_export :: "bytes list \<Rightarrow> bytes"
  EncryptedBatch_from :: "BatchCodec \<Rightarrow> (bytes list) reader"
  EncryptedBatch_export :: "BatchCodec \<Rightarrow> bytes list \<Rightarrow> bytes"
  BedrockPacket_header :: "nat reader"
  LoginPacket_id :: nat
  LoginPacket_from :: "LoginPacket reader"
  LoginPacket_export :: "LoginPacket \<Rightarrow> bytes"
  ResourcePackResponse_id :: nat
  ResourcePackResponse_from :: "nat reader"
  ServerHandshakePacket_from :: "JWT reader"
  ServerHandshakePacket_export :: "JWT \<Rightarrow> bytes"
  genKeyPair :: KeyPair
  getRandomValues :: bytes
  toB64 :: "bytes \<Rightarrow> string"
  diffieHellman :: "string \<Rightarrow> string \<Rightarrow> string \<Rightarrow> error + bytes"
  signature_of :: "KeyPair \<Rightarrow> JWT \<Rightarrow> string"

definition JWT_sign :: "env \<Rightarrow> KeyPair \<Rightarrow> JWT \<Rightarrow> JWT" where
  "JWT_sign env kp t = t\<lparr>signature := signature_of env kp t\<rparr>"

text \<open>The id of \<^verbatim>\<open>protocol/bedrock/handshake.ts\<close>.\<close>

definition ServerHandshakePacket_id :: nat where
  "ServerHandshakePacket_id = 0x03"

text \<open>
  The fields of the class \<^verbatim>\<open>Session\<close>, and two traces that are not fields of the
  source. \<open>dataOut\<close> is the trace of the events \<^verbatim>\<open>data-out\<close> that \<^verbatim>\<open>send\<close> emits,
  each with the bytes and the destination it was called with. \<open>sent\<close> is the trace of
  the calls of \<^verbatim>\<open>listener.send\<close>, each with its bytes and the side it went to
  (\<open>Client\<close> through \<^verbatim>\<open>handler.listener\<close> to \<^verbatim>\<open>this.client\<close>, \<open>Server\<close> through
  \<^verbatim>\<open>this.listener\<close> to \<^verbatim>\<open>this.server\<close>). The field \<^verbatim>\<open>time\<close>, which no method reads
  or writes, and the addresses and listeners, which only \<^verbatim>\<open>send\<close> and
  \<^verbatim>\<open>disconnect\<close> use, are left out.
\<close>

record Session =
  state :: SessionState
  mtuSize :: int
  serverSplits :: "SplitMemory option list"
  clientSplits :: "SplitMemory option list"
  serverSplitID :: nat
  clientSplitID :: nat
  serverPacketIndex :: nat
  clientPacketIndex :: nat
  clientReliableWindow :: Window
  serverReliableWindow :: Window
  clientPacketIndexes :: "nat set"
  serverPacketIndexes :: "nat set"
  serverSeqNumber :: nat
  clientSeqNumber :: nat
  keyPair :: "KeyPair option"
  salt :: string
  clientBatch :: "BatchCodec option"
  serverBatch :: "BatchCodec option"
  dataOut :: "(bytes \<times> Origin) list"
  sent :: "(bytes \<times> Origin) list"

definition newSession :: Session where
  "newSession =
     \<lparr>state = Offline, mtuSize = 1492,
      serverSplits = [None, None, None, None], clientSplits = [None, None, None, None],
      serverSplitID = 0, clientSplitID = 0,
      serverPacketIndex = 0, clientPacketIndex = 0,
      clientReliableWindow = \<lparr>w_start = 0, w_end = 2048\<rparr>,
      serverReliableWindow = \<lparr>w_start = 0, w_end = 2048\<rparr>,
      clientPacketIndexes = {}, serverPacketIndexes = {},
      serverSeqNumber = 0, clientSeqNumber = 0,
      keyPair = None, salt = [],
      clientBatch = None, serverBatch = None,
      dataOut = [], sent = []\<rparr>"

text \<open>
  A function of the session returns what it returns or throws, and the session as it
  leaves it: a \<^verbatim>\<open>throw\<close> does not undo the writes and the sends made before it.
\<close>

type_synonym 'a result = "(error + 'a) \<times> Session"

text \<open>
  \<^verbatim>\<open>disconnect\<close> sets the state through its setter and closes the listener that faces
  the server; the listener is not part of the model.
\<close>

definition disconnect :: "Session \<Rightarrow> Session" where
  "disconnect s = s\<lparr>state := Offline\<rparr>"

subsection \<open>Sending\<close>

definition send :: "env \<Rightarrow> bytes \<Rightarrow> Origin \<Rightarrow> Session \<Rightarrow> unit result" where
  "send env data to s =
     (let s1 = s\<lparr>dataOut := dataOut s @ [(data, to)]\<rparr>
      in case data_out env data to of
           Cancelled \<Rightarrow> (Inr (), s1)
         | Replaced data' to' \<Rightarrow>
             (case (data', to') of
                (Some d, Some t) \<Rightarrow> (Inr (), s1\<lparr>sent := sent s1 @ [(d, t)]\<rparr>)
              | _ \<Rightarrow> (Inl EventError, s1)))"

definition sendAck :: "env \<Rightarrow> nat list \<Rightarrow> Origin \<Rightarrow> Session \<Rightarrow> unit result" where
  "sendAck env ack to s = send env (ACK_export env ack) to s"

definition Datagram_export :: "env \<Rightarrow> Datagram \<Rightarrow> bytes" where
  "Datagram_export env datagram = Datagram_to (EncapsulatedPacket_to env) datagram"

definition sendDatagram :: "env \<Rightarrow> Datagram \<Rightarrow> Origin \<Rightarrow> Session \<Rightarrow> unit result" where
  "sendDatagram env datagram to s = send env (Datagram_export env datagram) to s"

subsection \<open>Outbound fragmentation (sendPacket)\<close>

text \<open>
  The first loop of \<^verbatim>\<open>sendPacket\<close>:
  \<^verbatim>\<open>for (let i = 0; i <= quotient; i++) buffers.push(buffer.readArray(i === quotient ? remainder : maxSize))\<close>.
\<close>

function readFragments ::
  "int \<Rightarrow> int \<Rightarrow> int \<Rightarrow> int \<Rightarrow> Buffer \<Rightarrow> bytes list \<Rightarrow> error + bytes list" where
  "readFragments i quot remainder maxSize buffer buffers =
     (if i \<le> quot then
        (case readArray buffer (if i = quot then remainder else maxSize) of
           Inl e \<Rightarrow> Inl e
         | Inr (chunk, buffer') \<Rightarrow>
             readFragments (i + 1) quot remainder maxSize buffer' (buffers @ [chunk]))
      else Inr buffers)"
  by pat_completeness auto
termination
  by (relation "measure (\<lambda>(i, quot, remainder, maxSize, buffer, buffers). nat (quot + 1 - i))")
     auto

declare readFragments.simps [simp del]

text \<open>
  The second loop: one encapsulated packet and one datagram per fragment, each with the
  next packet index and the next sequence number of the direction. The source keeps one
  \<^verbatim>\<open>split\<close> object, writes \<^verbatim>\<open>split.index = i\<close> into it and serialises the datagram
  before the next round, so each datagram is built here with the descriptor of its round.
\<close>

fun sendFragments ::
  "env \<Rightarrow> EncapsulatedPacket \<Rightarrow> Split option \<Rightarrow> Origin \<Rightarrow> nat \<Rightarrow> bytes list \<Rightarrow> Session
     \<Rightarrow> unit result" where
  "sendFragments env packet sp to i [] s = (Inr (), s)"
| "sendFragments env packet sp to i (chunk # rest) s =
     (let sp1 = map_option (\<lambda>x. x\<lparr>split_index := i\<rparr>) sp;
          idx = (if to = Client then clientPacketIndex s else serverPacketIndex s);
          s1 = (if to = Client then s\<lparr>clientPacketIndex := clientPacketIndex s + 1\<rparr>
                else s\<lparr>serverPacketIndex := serverPacketIndex s + 1\<rparr>);
          packet1 = \<lparr>reliability = reliability packet, sub = chunk, index = Some idx,
                     sequence = sequence packet, order = order packet, split = sp1\<rparr>;
          seq = (if to = Client then clientSeqNumber s1 else serverSeqNumber s1);
          s2 = (if to = Client then s1\<lparr>clientSeqNumber := clientSeqNumber s1 + 1\<rparr>
                else s1\<lparr>serverSeqNumber := serverSeqNumber s1 + 1\<rparr>);
          datagram = \<lparr>headerFlags = flag_valid, seqNumber = seq, packets = [packet1]\<rparr>
      in case sendDatagram env datagram to s2 of
           (Inl e, s3) \<Rightarrow> (Inl e, s3)
         | (Inr u, s3) \<Rightarrow> sendFragments env packet sp1 to (i + 1) rest s3)"

text \<open>
  \<^verbatim>\<open>length % maxSize\<close> has the sign of \<^verbatim>\<open>length\<close>, which is not negative.
  \<^verbatim>\<open>Math.floor(length / maxSize)\<close> is \<open>div\<close> when \<^verbatim>\<open>maxSize\<close> is not zero. When it is
  zero, \<^verbatim>\<open>length / 0\<close> is \<^verbatim>\<open>Infinity\<close> for a payload that is not empty, and the first loop
  never comes to its end (\<open>Hangs\<close>); for an empty payload it is \<^verbatim>\<open>NaN\<close>, \<^verbatim>\<open>0 <= NaN\<close> is
  false and the loop reads nothing. When \<^verbatim>\<open>maxSize\<close> is negative the quotient is negative
  and the loop reads nothing, unless the payload is empty: then the quotient is zero and
  the loop reads one empty fragment.
\<close>

definition sendPacket :: "env \<Rightarrow> EncapsulatedPacket \<Rightarrow> Origin \<Rightarrow> Session \<Rightarrow> unit result" where
  "sendPacket env packet to s =
     (let len = int (length (sub packet));
          maxSize = mtuSize s - 60
      in if maxSize = 0 \<and> len \<noteq> 0 then (Inl Hangs, s)
         else
           (case (if maxSize = 0 then Inr []
                  else readFragments 0 (len div maxSize) (len mod \<bar>maxSize\<bar>) maxSize
                         (newBuffer (sub packet)) []) of
              Inl e \<Rightarrow> (Inl e, s)
            | Inr buffers \<Rightarrow>
                (let sp = (if length buffers > 1
                           then Some \<lparr>split_count = length buffers,
                                      split_id = (if to = Client then clientSplitID s
                                                  else serverSplitID s) mod 65536,
                                      split_index = 0\<rparr>
                           else None);
                     s1 = (if length buffers > 1
                           then (if to = Client then s\<lparr>clientSplitID := clientSplitID s + 1\<rparr>
                                 else s\<lparr>serverSplitID := serverSplitID s + 1\<rparr>)
                           else s)
                 in sendFragments env packet sp to 0 buffers s1)))"

subsection \<open>Login and handshake interception\<close>

text \<open>
  \<^verbatim>\<open>handleLoginPacket\<close> writes \<^verbatim>\<open>_keyPair\<close> and \<^verbatim>\<open>_salt\<close> before it reads
  \<^verbatim>\<open>last.payload\<close>, which throws a TypeError when the login has no token. It returns the
  new payload, and here also the buffer as \<^verbatim>\<open>LoginPacket.from\<close> left it.
\<close>

definition handleLoginPacket :: "env \<Rightarrow> Buffer \<Rightarrow> Session \<Rightarrow> (bytes \<times> Buffer) result" where
  "handleLoginPacket env buffer s =
     (case LoginPacket_from env buffer of
        Inl e \<Rightarrow> (Inl e, s)
      | Inr (login, buffer') \<Rightarrow>
          (let kp = genKeyPair env;
               salt1 = toB64 env (getRandomValues env);
               s1 = s\<lparr>keyPair := Some kp, salt := salt1\<rparr>
           in if tokens login = [] then (Inl TypeError, s1)
              else
                (let lst = last (tokens login)
                 in case diffieHellman env (privateKey kp) (payload_identityPublicKey lst) salt1 of
                      Inl e \<Rightarrow> (Inl e, s1)
                    | Inr secret \<Rightarrow>
                        (let s2 = s1\<lparr>clientBatch := Some (EncryptedBatchPacket secret Client)\<rparr>;
                             lst1 = JWT_sign env kp
                                      (lst\<lparr>payload_identityPublicKey := publicKey kp\<rparr>);
                             client1 = JWT_sign env kp (client login);
                             login1 = \<lparr>tokens = butlast (tokens login) @ [lst1],
                                       client = client1\<rparr>
                         in (Inr (LoginPacket_export env login1, buffer'), s2)))))"

text \<open>
  \<^verbatim>\<open>this._keyPair!!\<close> checks nothing when the program runs: without a key pair,
  \<^verbatim>\<open>keyPair.privateKey\<close> throws a TypeError. The setter of \<^verbatim>\<open>state\<close> emits the event
  \<^verbatim>\<open>"state"\<close>, drops what the subscribers answer, and writes the field.
\<close>

definition handleHandshakePacket :: "env \<Rightarrow> Buffer \<Rightarrow> Session \<Rightarrow> bytes result" where
  "handleHandshakePacket env buffer s =
     (case ServerHandshakePacket_from env buffer of
        Inl e \<Rightarrow> (Inl e, s)
      | Inr (token, buffer') \<Rightarrow>
          (case keyPair s of
             None \<Rightarrow> (Inl TypeError, s)
           | Some kp \<Rightarrow>
               (case diffieHellman env (privateKey kp) (header_x5u token) (payload_salt token) of
                  Inl e \<Rightarrow> (Inl e, s)
                | Inr secret \<Rightarrow>
                    (let s1 = s\<lparr>serverBatch := Some (EncryptedBatchPacket secret Server)\<rparr>;
                         token1 = JWT_sign env kp (token\<lparr>payload_salt := salt s1\<rparr>);
                         s2 = s1\<lparr>state := Encrypted\<rparr>
                     in (Inr (ServerHandshakePacket_export env token1), s2)))))"

definition handleBedrock :: "env \<Rightarrow> bytes \<Rightarrow> Origin \<Rightarrow> Session \<Rightarrow> bytes result" where
  "handleBedrock env data from s =
     (case BedrockPacket_header env (newBuffer data) of
        Inl e \<Rightarrow> (Inl e, s)
      | Inr (i, buffer) \<Rightarrow>
          (case (if from = Client then
                   (case (if i = LoginPacket_id env then handleLoginPacket env buffer s
                          else (Inr (data, buffer), s)) of
                      (Inl e, s1) \<Rightarrow> (Inl e, s1)
                    | (Inr (data1, buffer1), s1) \<Rightarrow>
                        (if i = ResourcePackResponse_id env then
                           (case ResourcePackResponse_from env buffer1 of
                              Inl e \<Rightarrow> (Inl e, s1)
                            | Inr status \<Rightarrow> (Inr data1, s1))
                         else (Inr data1, s1)))
                 else (Inr data, s)) of
             (Inl e, s1) \<Rightarrow> (Inl e, s1)
           | (Inr data1, s1) \<Rightarrow>
               (if from = Server then
                  (if i = ServerHandshakePacket_id then handleHandshakePacket env buffer s1
                   else (Inr data1, s1))
                else (Inr data1, s1))))"

subsection \<open>Batches\<close>

text \<open>The loop \<^verbatim>\<open>for (const data of batch.packets) packets.push(await this.handleBedrock(data, from))\<close>.\<close>

fun handleBedrocks :: "env \<Rightarrow> bytes list \<Rightarrow> Origin \<Rightarrow> bytes list \<Rightarrow> Session \<Rightarrow> (bytes list) result" where
  "handleBedrocks env [] from acc s = (Inr acc, s)"
| "handleBedrocks env (data # rest) from acc s =
     (case handleBedrock env data from s of
        (Inl e, s1) \<Rightarrow> (Inl e, s1)
      | (Inr data1, s1) \<Rightarrow> handleBedrocks env rest from (acc @ [data1]) s1)"

definition handleUnencryptedBatch :: "env \<Rightarrow> Buffer \<Rightarrow> Origin \<Rightarrow> Session \<Rightarrow> bytes result" where
  "handleUnencryptedBatch env buffer from s =
     (case BatchPacket_from env buffer of
        Inl e \<Rightarrow> (Inl e, s)
      | Inr (batch, buffer') \<Rightarrow>
          (case handleBedrocks env batch from [] s of
             (Inl e, s1) \<Rightarrow> (Inl e, s1)
           | (Inr ps, s1) \<Rightarrow> (Inr (BatchPacket_export env ps), s1)))"

text \<open>
  \<^verbatim>\<open>ReceiveBatch\<close> and \<^verbatim>\<open>SendBatch\<close> are read from the session before the inner packets
  are handled; a class that is \<^verbatim>\<open>undefined\<close> throws a TypeError where it is used.
\<close>

definition handleEncryptedBatch :: "env \<Rightarrow> Buffer \<Rightarrow> Origin \<Rightarrow> Session \<Rightarrow> bytes result" where
  "handleEncryptedBatch env buffer from s =
     (let ReceiveBatch = (if from = Client then clientBatch s else serverBatch s);
          SendBatch = (if from = Client then serverBatch s else clientBatch s)
      in case ReceiveBatch of
           None \<Rightarrow> (Inl TypeError, s)
         | Some rb \<Rightarrow>
             (case EncryptedBatch_from env rb buffer of
                Inl e \<Rightarrow> (Inl e, s)
              | Inr (batch, buffer') \<Rightarrow>
                  (case handleBedrocks env batch from [] s of
                     (Inl e, s1) \<Rightarrow> (Inl e, s1)
                   | (Inr ps, s1) \<Rightarrow>
                       (case SendBatch of
                          None \<Rightarrow> (Inl TypeError, s1)
                        | Some sb \<Rightarrow> (Inr (EncryptedBatch_export env sb ps), s1)))))"

definition handleBatch :: "env \<Rightarrow> Buffer \<Rightarrow> Origin \<Rightarrow> Session \<Rightarrow> bytes result" where
  "handleBatch env buffer from s =
     (if state s = Encrypted then handleEncryptedBatch env buffer from s
      else handleUnencryptedBatch env buffer from s)"

subsection \<open>Inbound encapsulated packets (handlePacket)\<close>

text \<open>
  \<^verbatim>\<open>handlePacket\<close> has three parts, each a definition here: the reliable window
  (the block under \<^verbatim>\<open>if (isReliable(packet.reliability))\<close>), the split reassembly (the
  block under \<^verbatim>\<open>if (packet.split)\<close>), and the forwarding that follows. The first two
  can end the call with a bare \<^verbatim>\<open>return\<close>: \<open>admitReliable\<close> then answers \<open>False\<close> and
  \<open>reassembleSplit\<close> answers \<open>None\<close>.
\<close>

definition reliableWindowOf :: "Origin \<Rightarrow> Session \<Rightarrow> Window" where
  "reliableWindowOf from s = (if from = Client then clientReliableWindow s else serverReliableWindow s)"

definition packetIndexesOf :: "Origin \<Rightarrow> Session \<Rightarrow> nat set" where
  "packetIndexesOf from s = (if from = Client then clientPacketIndexes s else serverPacketIndexes s)"

definition splitsOf :: "Origin \<Rightarrow> Session \<Rightarrow> SplitMemory option list" where
  "splitsOf from s = (if from = Client then clientSplits s else serverSplits s)"

definition setReliableWindow :: "Origin \<Rightarrow> Window \<Rightarrow> Session \<Rightarrow> Session" where
  "setReliableWindow from w s =
     (if from = Client then s\<lparr>clientReliableWindow := w\<rparr> else s\<lparr>serverReliableWindow := w\<rparr>)"

definition setPacketIndexes :: "Origin \<Rightarrow> nat set \<Rightarrow> Session \<Rightarrow> Session" where
  "setPacketIndexes from S s =
     (if from = Client then s\<lparr>clientPacketIndexes := S\<rparr> else s\<lparr>serverPacketIndexes := S\<rparr>)"

definition setSplits :: "Origin \<Rightarrow> SplitMemory option list \<Rightarrow> Session \<Rightarrow> Session" where
  "setSplits from sp s =
     (if from = Client then s\<lparr>clientSplits := sp\<rparr> else s\<lparr>serverSplits := sp\<rparr>)"

text \<open>
  The loop \<^verbatim>\<open>while (indexes.has(start)) { indexes.delete(start); window.start++; window.end++; }\<close>.
  \<^verbatim>\<open>start\<close> is the constant that \<^verbatim>\<open>const { start, end } = window\<close> bound before the
  loop: the loop tests the same number every round, while it advances the fields of
  \<^verbatim>\<open>window\<close>.
\<close>

function slideWindow :: "nat \<Rightarrow> nat set \<Rightarrow> Window \<Rightarrow> nat set \<times> Window" where
  "slideWindow start indexes window =
     (if start \<in> indexes then
        slideWindow start (indexes - {start})
          (window\<lparr>w_start := w_start window + 1, w_end := w_end window + 1\<rparr>)
      else (indexes, window))"
  by pat_completeness auto
termination
  by (relation "measure (\<lambda>(start, indexes, window). if start \<in> indexes then 1 else 0)") auto

declare slideWindow.simps [simp del]

definition admitReliable :: "EncapsulatedPacket \<Rightarrow> Origin \<Rightarrow> Session \<Rightarrow> bool result" where
  "admitReliable packet from s =
     (if isReliable (reliability packet) then
        (case index packet of
           None \<Rightarrow> (Inl NoIndex, s)
         | Some i \<Rightarrow>
             (let window = reliableWindowOf from s;
                  indexes = packetIndexesOf from s;
                  start = w_start window;
                  end' = w_end window
              in if \<not> inRange i start end' then (Inr False, s)
                 else if i \<in> indexes then (Inl DuplicateIndex, s)
                 else
                   (let indexes1 = insert i indexes
                    in if i = start then
                         (case slideWindow start indexes1 window of
                            (indexes2, window2) \<Rightarrow>
                              (Inr True, setReliableWindow from window2
                                           (setPacketIndexes from indexes2 s)))
                       else (Inr True, setPacketIndexes from indexes1 s))))
      else (Inr True, s))"

text \<open>
  \<^verbatim>\<open>insert(array, i, value)\<close> is \<^verbatim>\<open>array.splice(i, 0, value)\<close>: the value goes in front
  of the element at position \<open>i\<close>, and at the end when \<open>i\<close> is past the end.
\<close>

definition insert_at :: "'a list \<Rightarrow> nat \<Rightarrow> 'a \<Rightarrow> 'a list" where
  "insert_at arr i v = take i arr @ [v] @ drop i arr"

text \<open>
  \<^verbatim>\<open>packets\<close> holds packet objects only, so \<^verbatim>\<open>packets[index]\<close> is true exactly when
  \<open>index\<close> is below the length. The buffer that the loop over \<^verbatim>\<open>packets\<close> fills holds
  the payloads one after the other.
\<close>

definition reassembleSplit ::
  "EncapsulatedPacket \<Rightarrow> Origin \<Rightarrow> Session \<Rightarrow> (EncapsulatedPacket option) result" where
  "reassembleSplit packet from s =
     (case split packet of
        None \<Rightarrow> (Inr (Some packet), s)
      | Some sp \<Rightarrow>
          (case memoryOf (splitsOf from s) (split_id sp) of
             Inl e \<Rightarrow> (Inl e, s)
           | Inr (slot, memory, splits1) \<Rightarrow>
               (case memory of
                  None \<Rightarrow> (Inl TypeError, setSplits from splits1 s)
                | Some mem \<Rightarrow>
                    (if split_index sp < length (mem_packets mem)
                     then (Inr None, setSplits from splits1 s)
                     else
                       (let packets1 = insert_at (mem_packets mem) (split_index sp) packet;
                            splits2 = splits1[slot := Some (mem\<lparr>mem_packets := packets1\<rparr>)]
                        in if length packets1 \<noteq> split_count sp
                           then (Inr None, setSplits from splits2 s)
                           else (Inr (Some (packet\<lparr>sub := concat (map sub packets1),
                                                    split := None\<rparr>)),
                                 setSplits from (splits2[slot := None]) s))))))"

definition handlePacket :: "env \<Rightarrow> EncapsulatedPacket \<Rightarrow> Origin \<Rightarrow> Session \<Rightarrow> unit result" where
  "handlePacket env packet from s =
     (case admitReliable packet from s of
        (Inl e, s1) \<Rightarrow> (Inl e, s1)
      | (Inr False, s1) \<Rightarrow> (Inr (), s1)
      | (Inr True, s1) \<Rightarrow>
          (case reassembleSplit packet from s1 of
             (Inl e, s2) \<Rightarrow> (Inl e, s2)
           | (Inr None, s2) \<Rightarrow> (Inr (), s2)
           | (Inr (Some packet1), s2) \<Rightarrow>
               (case header env (newBuffer (sub packet1)) of
                  Inl e \<Rightarrow> (Inl e, s2)
                | Inr (i, buffer) \<Rightarrow>
                    (case (if i = BatchPacket_id env then handleBatch env buffer from s2
                           else (Inr (sub packet1), s2)) of
                       (Inl e, s3) \<Rightarrow> (Inl e, s3)
                     | (Inr sub1, s3) \<Rightarrow>
                         sendPacket env (packet1\<lparr>sub := sub1\<rparr>) (opposite from) s3))))"

subsection \<open>Datagrams and the entry points\<close>

fun handlePackets :: "env \<Rightarrow> EncapsulatedPacket list \<Rightarrow> Origin \<Rightarrow> Session \<Rightarrow> unit result" where
  "handlePackets env [] from s = (Inr (), s)"
| "handlePackets env (packet # rest) from s =
     (case handlePacket env packet from s of
        (Inl e, s1) \<Rightarrow> (Inl e, s1)
      | (Inr u, s1) \<Rightarrow> handlePackets env rest from s1)"

definition handleDatagram :: "env \<Rightarrow> Datagram \<Rightarrow> Origin \<Rightarrow> Session \<Rightarrow> unit result" where
  "handleDatagram env datagram from s =
     (case sendAck env [seqNumber datagram] from s of
        (Inl e, s1) \<Rightarrow> (Inl e, s1)
      | (Inr u, s1) \<Rightarrow> handlePackets env (packets datagram) from s1)"

text \<open>\<^verbatim>\<open>handleAck\<close> writes a line to the console for a NACK and does nothing else.\<close>

definition handleAck :: "Protocol \<Rightarrow> Origin \<Rightarrow> Session \<Rightarrow> unit result" where
  "handleAck ack from s = (Inr (), s)"

definition handleOnline :: "env \<Rightarrow> bytes \<Rightarrow> Origin \<Rightarrow> Session \<Rightarrow> unit result" where
  "handleOnline env data from s =
     (case datagramOf env data of
        Inl e \<Rightarrow> (Inl e, s)
      | Inr (IsDatagram datagram) \<Rightarrow> handleDatagram env datagram from s
      | Inr (IsACK a) \<Rightarrow> handleAck (IsACK a) from s
      | Inr (IsNACK a) \<Rightarrow> handleAck (IsNACK a) from s
      | Inr Ignored \<Rightarrow> (Inr (), s))"

definition handleOffline :: "env \<Rightarrow> bytes \<Rightarrow> Origin \<Rightarrow> Session \<Rightarrow> unit result" where
  "handleOffline env data from s =
     (case header env (newBuffer data) of
        Inl e \<Rightarrow> (Inl e, s)
      | Inr (i, buffer) \<Rightarrow>
          (case (if i = Open2Request_id env then
                   (case Open2Request_from env buffer of
                      Inl e \<Rightarrow> Inl e
                    | Inr (mtu, buffer') \<Rightarrow> Inr (s\<lparr>mtuSize := min mtu (mtuSize s)\<rparr>))
                 else Inr s) of
             Inl e \<Rightarrow> (Inl e, s)
           | Inr s1 \<Rightarrow>
               send env data (opposite from)
                 (if i = Open2Reply_id env then s1\<lparr>state := Online\<rparr> else s1)))"

definition handle :: "env \<Rightarrow> bytes \<Rightarrow> Origin \<Rightarrow> Session \<Rightarrow> unit result" where
  "handle env data from s =
     (case data_in env data from of
        Cancelled \<Rightarrow> (Inr (), s)
      | Replaced data' from' \<Rightarrow>
          (case (data', from') of
             (Some d, Some f) \<Rightarrow>
               (if state s = Offline then handleOffline env d f s else handleOnline env d f s)
           | _ \<Rightarrow> (Inr (), s)))"

section \<open>The encryption helper (node/src/encrypt.ts)\<close>

text \<open>
  The helper reads one request \<^verbatim>\<open>{data, secret}\<close>, the secret in base64, and prints the
  bytes of \<^verbatim>\<open>Buffer.concat([cipher.update(data), cipher.final()])\<close>. The cipher is Node's
  \<^verbatim>\<open>crypto\<close> module, which is not part of the repository: \<^verbatim>\<open>createCipheriv\<close> makes a
  cipher object from an algorithm name, a key and an initialisation vector;
  \<^verbatim>\<open>update\<close> and \<^verbatim>\<open>final\<close> return enciphered bytes and change the object; the
  authentication tag of an authenticated mode is a separate value, read with
  \<^verbatim>\<open>getAuthTag\<close> after \<^verbatim>\<open>final\<close>. The module is the parameter \<open>api\<close>, \<open>'c\<close> the
  state of a cipher object.
\<close>

record 'c crypto =
  createCipheriv :: "string \<Rightarrow> bytes \<Rightarrow> bytes \<Rightarrow> error + 'c"
  update :: "'c \<Rightarrow> bytes \<Rightarrow> bytes \<times> 'c"
  final :: "'c \<Rightarrow> bytes \<times> 'c"
  getAuthTag :: "'c \<Rightarrow> bytes"

definition encrypt :: "'c crypto \<Rightarrow> (string \<Rightarrow> bytes) \<Rightarrow> bytes \<Rightarrow> string \<Rightarrow> error + bytes" where
  "encrypt api fromBase64 data secret64 =
     (let secret = fromBase64 secret64;
          iv = take 16 secret
      in case createCipheriv api ''aes-256-gcm'' secret iv of
           Inl e \<Rightarrow> Inl e
         | Inr cipher \<Rightarrow>
             (case update api cipher data of
                (out1, cipher1) \<Rightarrow>
                  (case final api cipher1 of
                     (out2, cipher2) \<Rightarrow> Inr (out1 @ out2))))"

section \<open>Node's cipher for aes-256-gcm\<close>

text \<open>
  The helper runs on Node, whose modules \<^verbatim>\<open>crypto\<close> and \<^verbatim>\<open>Buffer\<close> are not part of the
  repository. This section models the part of them that the helper calls, after Node's
  documentation and the standards behind it: the block cipher AES-256 (FIPS 197), the
  Galois/Counter Mode (NIST SP 800-38D) and the base64 alphabet (RFC 4648).
\<close>

subsection \<open>AES-256\<close>

text \<open>
  The substitution table, one row for each value of the high four bits of a byte.
\<close>

definition sbox :: "bytes list" where
  "sbox =
     [[0x63, 0x7C, 0x77, 0x7B, 0xF2, 0x6B, 0x6F, 0xC5, 0x30, 0x01, 0x67, 0x2B, 0xFE, 0xD7, 0xAB, 0x76],
      [0xCA, 0x82, 0xC9, 0x7D, 0xFA, 0x59, 0x47, 0xF0, 0xAD, 0xD4, 0xA2, 0xAF, 0x9C, 0xA4, 0x72, 0xC0],
      [0xB7, 0xFD, 0x93, 0x26, 0x36, 0x3F, 0xF7, 0xCC, 0x34, 0xA5, 0xE5, 0xF1, 0x71, 0xD8, 0x31, 0x15],
      [0x04, 0xC7, 0x23, 0xC3, 0x18, 0x96, 0x05, 0x9A, 0x07, 0x12, 0x80, 0xE2, 0xEB, 0x27, 0xB2, 0x75],
      [0x09, 0x83, 0x2C, 0x1A, 0x1B, 0x6E, 0x5A, 0xA0, 0x52, 0x3B, 0xD6, 0xB3, 0x29, 0xE3, 0x2F, 0x84],
      [0x53, 0xD1, 0x00, 0xED, 0x20, 0xFC, 0xB1, 0x5B, 0x6A, 0xCB, 0xBE, 0x39, 0x4A, 0x4C, 0x58, 0xCF],
      [0xD0, 0xEF, 0xAA, 0xFB, 0x43, 0x4D, 0x33, 0x85, 0x45, 0xF9, 0x02, 0x7F, 0x50, 0x3C, 0x9F, 0xA8],
      [0x51, 0xA3, 0x40, 0x8F, 0x92, 0x9D, 0x38, 0xF5, 0xBC, 0xB6, 0xDA, 0x21, 0x10, 0xFF, 0xF3, 0xD2],
      [0xCD, 0x0C, 0x13, 0xEC, 0x5F, 0x97, 0x44, 0x17, 0xC4, 0xA7, 0x7E, 0x3D, 0x64, 0x5D, 0x19, 0x73],
      [0x60, 0x81, 0x4F, 0xDC, 0x22, 0x2A, 0x90, 0x88, 0x46, 0xEE, 0xB8, 0x14, 0xDE, 0x5E, 0x0B, 0xDB],
      [0xE0, 0x32, 0x3A, 0x0A, 0x49, 0x06, 0x24, 0x5C, 0xC2, 0xD3, 0xAC, 0x62, 0x91, 0x95, 0xE4, 0x79],
      [0xE7, 0xC8, 0x37, 0x6D, 0x8D, 0xD5, 0x4E, 0xA9, 0x6C, 0x56, 0xF4, 0xEA, 0x65, 0x7A, 0xAE, 0x08],
      [0xBA, 0x78, 0x25, 0x2E, 0x1C, 0xA6, 0xB4, 0xC6, 0xE8, 0xDD, 0x74, 0x1F, 0x4B, 0xBD, 0x8B, 0x8A],
      [0x70, 0x3E, 0xB5, 0x66, 0x48, 0x03, 0xF6, 0x0E, 0x61, 0x35, 0x57, 0xB9, 0x86, 0xC1, 0x1D, 0x9E],
      [0xE1, 0xF8, 0x98, 0x11, 0x69, 0xD9, 0x8E, 0x94, 0x9B, 0x1E, 0x87, 0xE9, 0xCE, 0x55, 0x28, 0xDF],
      [0x8C, 0xA1, 0x89, 0x0D, 0xBF, 0xE6, 0x42, 0x68, 0x41, 0x99, 0x2D, 0x0F, 0xB0, 0x54, 0xBB, 0x16]]"

definition SubByte :: "byte \<Rightarrow> byte" where
  "SubByte b = sbox ! unat (drop_bit 4 b) ! unat (take_bit 4 b)"

text \<open>Multiplication by \<open>x\<close> in the field of 256 elements.\<close>

definition xtime :: "byte \<Rightarrow> byte" where
  "xtime b = (if bit b 7 then push_bit 1 b XOR 0x1B else push_bit 1 b)"

definition xorBytes :: "bytes \<Rightarrow> bytes \<Rightarrow> bytes" where
  "xorBytes a b = map (\<lambda>(x, y). x XOR y) (zip a b)"

text \<open>
  The state is the list of its sixteen bytes in the order of the input block, column
  after column.
\<close>

definition SubBytes :: "bytes \<Rightarrow> bytes" where
  "SubBytes st = map SubByte st"

definition ShiftRows :: "bytes \<Rightarrow> bytes" where
  "ShiftRows st = map (\<lambda>i. st ! i) [0, 5, 10, 15, 4, 9, 14, 3, 8, 13, 2, 7, 12, 1, 6, 11]"

definition MixColumn :: "byte \<Rightarrow> byte \<Rightarrow> byte \<Rightarrow> byte \<Rightarrow> bytes" where
  "MixColumn a b c d =
     [xtime a XOR (xtime b XOR b) XOR c XOR d,
      a XOR xtime b XOR (xtime c XOR c) XOR d,
      a XOR b XOR xtime c XOR (xtime d XOR d),
      (xtime a XOR a) XOR b XOR c XOR xtime d]"

fun MixColumns :: "bytes \<Rightarrow> bytes" where
  "MixColumns (a # b # c # d # rest) = MixColumn a b c d @ MixColumns rest"
| "MixColumns rest = []"

definition AddRoundKey :: "bytes \<Rightarrow> bytes \<Rightarrow> bytes" where
  "AddRoundKey st rk = xorBytes st rk"

text \<open>
  The key schedule for a key of 32 bytes: each step makes the next eight words from the
  last eight, and fifteen round keys are 240 bytes.
\<close>

definition RotWord :: "bytes \<Rightarrow> bytes" where
  "RotWord w = rotate1 w"

fun chainXor :: "bytes \<Rightarrow> bytes \<Rightarrow> bytes" where
  "chainXor t (a # b # c # d # rest) =
     xorBytes [a, b, c, d] t @ chainXor (xorBytes [a, b, c, d] t) rest"
| "chainXor t rest = []"

definition nextHalf :: "bytes \<Rightarrow> bytes \<Rightarrow> bytes" where
  "nextHalf k h = h @ chainXor (SubBytes (drop 12 h)) (drop 16 k)"

definition nextKey :: "byte \<Rightarrow> bytes \<Rightarrow> bytes" where
  "nextKey rc k =
     nextHalf k
       (chainXor (xorBytes (SubBytes (RotWord (drop 28 k))) [rc, 0, 0, 0]) (take 16 k))"

fun expand :: "bytes \<Rightarrow> bytes \<Rightarrow> bytes" where
  "expand [] k = []"
| "expand (rc # rcs) k = nextKey rc k @ expand rcs (nextKey rc k)"

definition KeyExpansion :: "bytes \<Rightarrow> bytes" where
  "KeyExpansion key = take 240 (key @ expand [1, 2, 4, 8, 16, 32, 64] key)"

text \<open>
  The cipher: the first round key, thirteen full rounds, and a last round without
  \<open>MixColumns\<close>. \<open>rounds\<close> takes the round keys that are left.
\<close>

definition aesRound :: "bytes \<Rightarrow> bytes \<Rightarrow> bytes" where
  "aesRound st rk = AddRoundKey (MixColumns (ShiftRows (SubBytes st))) rk"

function rounds :: "bytes \<Rightarrow> bytes \<Rightarrow> bytes" where
  "rounds w st =
     (if drop 16 w = [] then AddRoundKey (ShiftRows (SubBytes st)) w
      else rounds (drop 16 w) (aesRound st (take 16 w)))"
  by pat_completeness auto
termination
  by (relation "measure (\<lambda>(w, st). length w)") auto

declare rounds.simps [simp del]

definition Cipher :: "bytes \<Rightarrow> bytes \<Rightarrow> bytes" where
  "Cipher w input = rounds (drop 16 w) (AddRoundKey input (take 16 w))"

subsection \<open>Galois/Counter Mode\<close>

text \<open>
  A block is a number below \<open>2 ^ 128\<close>, its first byte the most significant. \<open>gmult x h\<close>
  is the product of the block of the bytes \<open>x\<close> and the block \<open>h\<close> in the field of
  \<open>2 ^ 128\<close> elements: one step for each bit of \<open>x\<close>, from the first.
\<close>

definition gstep :: "bool \<Rightarrow> int \<times> int \<Rightarrow> int \<times> int" where
  "gstep b zv =
     (case zv of (z, v) \<Rightarrow>
        (if b then z XOR v else z,
         if odd v then v div 2 XOR 0xE1000000000000000000000000000000 else v div 2))"

definition gbyte :: "byte \<Rightarrow> int \<times> int \<Rightarrow> int \<times> int" where
  "gbyte x zv =
     gstep (bit x 0) (gstep (bit x 1) (gstep (bit x 2) (gstep (bit x 3)
       (gstep (bit x 4) (gstep (bit x 5) (gstep (bit x 6) (gstep (bit x 7) zv)))))))"

definition gmult :: "bytes \<Rightarrow> int \<Rightarrow> int" where
  "gmult x h = fst (fold gbyte x (0, h))"

definition bytes_int :: "bytes \<Rightarrow> int" where
  "bytes_int bs = foldl (\<lambda>acc b. 256 * acc + uint b) 0 bs"

fun int_bytes :: "nat \<Rightarrow> int \<Rightarrow> bytes" where
  "int_bytes 0 v = []"
| "int_bytes (Suc n) v = int_bytes n (v div 256) @ [of_int (v mod 256)]"

definition pad16 :: "bytes \<Rightarrow> bytes" where
  "pad16 x = x @ replicate ((16 - length x mod 16) mod 16) 0"

function GHASH :: "int \<Rightarrow> bytes \<Rightarrow> bytes \<Rightarrow> bytes" where
  "GHASH h y x =
     (if x = [] then y
      else GHASH h (int_bytes 16 (gmult (xorBytes y (take 16 x)) h)) (drop 16 x))"
  by pat_completeness auto
termination
  by (relation "measure (\<lambda>(h, y, x). length x)") auto

declare GHASH.simps [simp del]

definition inc32 :: "bytes \<Rightarrow> bytes" where
  "inc32 cb = take 12 cb @ int_bytes 4 ((bytes_int (drop 12 cb) + 1) mod 4294967296)"

function GCTR :: "bytes \<Rightarrow> bytes \<Rightarrow> bytes \<Rightarrow> bytes" where
  "GCTR w cb x =
     (if x = [] then []
      else xorBytes (take 16 x) (Cipher w cb) @ GCTR w (inc32 cb) (drop 16 x))"
  by pat_completeness auto
termination
  by (relation "measure (\<lambda>(w, cb, x). length x)") auto

declare GCTR.simps [simp del]

text \<open>
  The hash key, the first counter block of an initialisation vector, the ciphertext and
  the authentication tag of a plaintext, with no additional authenticated data.
\<close>

definition gcm_H :: "bytes \<Rightarrow> int" where
  "gcm_H w = bytes_int (Cipher w (replicate 16 0))"

definition gcm_J0 :: "bytes \<Rightarrow> bytes \<Rightarrow> bytes" where
  "gcm_J0 w iv =
     (if length iv = 12 then iv @ [0, 0, 0, 1]
      else GHASH (gcm_H w) (replicate 16 0)
             (pad16 iv @ replicate 8 0 @ int_bytes 8 (8 * int (length iv))))"

definition gcm_encrypt :: "bytes \<Rightarrow> bytes \<Rightarrow> bytes \<Rightarrow> bytes" where
  "gcm_encrypt key iv p =
     (let w = KeyExpansion key in GCTR w (inc32 (gcm_J0 w iv)) p)"

definition gcm_tag :: "bytes \<Rightarrow> bytes \<Rightarrow> bytes \<Rightarrow> bytes" where
  "gcm_tag key iv p =
     (let w = KeyExpansion key;
          c = GCTR w (inc32 (gcm_J0 w iv)) p;
          s = GHASH (gcm_H w) (replicate 16 0)
                (pad16 c @ int_bytes 8 0 @ int_bytes 8 (8 * int (length c)))
      in GCTR w (gcm_J0 w iv) s)"

subsection \<open>The cipher object\<close>

text \<open>
  \<^verbatim>\<open>createCipheriv\<close> throws a RangeError for a key that is not 32 bytes long. A cipher
  object holds the key, the initialisation vector and the bytes it was given so far.
  \<^verbatim>\<open>update\<close> returns the ciphertext of the bytes it is given; \<^verbatim>\<open>final\<close> returns no
  bytes, since the mode is a stream mode; \<^verbatim>\<open>getAuthTag\<close> returns the tag, sixteen
  bytes, which is no part of what \<^verbatim>\<open>update\<close> and \<^verbatim>\<open>final\<close> return.
\<close>

record gcm =
  gcm_key :: bytes
  gcm_iv :: bytes
  gcm_data :: bytes

definition nodeCrypto :: "gcm crypto" where
  "nodeCrypto =
     \<lparr>createCipheriv = (\<lambda>algorithm key iv.
         if algorithm = ''aes-256-gcm'' then
           (if length key = 32 then
              (if iv = [] then Inl CipherError
               else Inr \<lparr>gcm_key = key, gcm_iv = iv, gcm_data = []\<rparr>)
            else Inl RangeError)
         else Inl CipherError),
      update = (\<lambda>c data.
         (drop (length (gcm_data c))
            (gcm_encrypt (gcm_key c) (gcm_iv c) (gcm_data c @ data)),
          c\<lparr>gcm_data := gcm_data c @ data\<rparr>)),
      final = (\<lambda>c. ([], c)),
      getAuthTag = (\<lambda>c. gcm_tag (gcm_key c) (gcm_iv c) (gcm_data c))\<rparr>"

subsection \<open>base64\<close>

text \<open>
  \<^verbatim>\<open>Buffer.from(s, "base64")\<close>: the characters of both alphabets are read, the others
  are skipped, and the first \<^verbatim>\<open>=\<close> ends the input. Four characters make three bytes;
  three characters left over make two bytes, and two make one.
\<close>

definition unbase64 :: "char \<Rightarrow> nat option" where
  "unbase64 c =
     (let n = (of_char c :: nat)
      in if 65 \<le> n \<and> n \<le> 90 then Some (n - 65)
         else if 97 \<le> n \<and> n \<le> 122 then Some (n - 71)
         else if 48 \<le> n \<and> n \<le> 57 then Some (n + 4)
         else if n = 43 \<or> n = 45 then Some 62
         else if n = 47 \<or> n = 95 then Some 63
         else None)"

fun sextets :: "string \<Rightarrow> nat list" where
  "sextets [] = []"
| "sextets (c # cs) =
     (if c = CHR ''='' then []
      else (case unbase64 c of None \<Rightarrow> sextets cs | Some v \<Rightarrow> v # sextets cs))"

fun octets :: "nat list \<Rightarrow> bytes" where
  "octets (a # b # c # d # rest) =
     [of_nat (a * 4 + b div 16), of_nat (b mod 16 * 16 + c div 4), of_nat (c mod 4 * 64 + d)]
     @ octets rest"
| "octets [a, b, c] = [of_nat (a * 4 + b div 16), of_nat (b mod 16 * 16 + c div 4)]"
| "octets [a, b] = [of_nat (a * 4 + b div 16)]"
| "octets rest = []"

definition base64 :: "string \<Rightarrow> bytes" where
  "base64 s = octets (sextets s)"

section \<open>What the claims assume of the collaborators\<close>

text \<open>
  The bytes between the cursor of \<open>b\<close> and the cursor of \<open>b'\<close>, and a codec of
  encapsulated packets that round-trips: a packet that the reader returns writes back
  exactly the bytes the reader consumed, and the reader moves only the cursor. The
  specification promises this round trip of \<^verbatim>\<open>EncapsulatedPacket\<close>.
\<close>

definition consumed :: "Buffer \<Rightarrow> Buffer \<Rightarrow> bytes" where
  "consumed b b' = take (offset b' - offset b) (drop (offset b) (array b))"

definition roundtrips ::
  "EncapsulatedPacket reader \<Rightarrow> (EncapsulatedPacket \<Rightarrow> bytes) \<Rightarrow> bool" where
  "roundtrips dec enc =
     (\<forall>b p b'. dec b = Inr (p, b') \<longrightarrow>
        array b' = array b \<and> offset b \<le> offset b' \<and> offset b' \<le> length (array b)
        \<and> enc p = consumed b b')"

text \<open>
  Subscribers that let every event through as it is (what \<^verbatim>\<open>emit\<close> resolves to when
  nobody subscribed).
\<close>

definition passes :: "(bytes \<Rightarrow> Origin \<Rightarrow> emitted) \<Rightarrow> bool" where
  "passes hook = (\<forall>d t. hook d t = Replaced (Some d) (Some t))"

text \<open>
  Subscribers that cancel an event or answer with a whole tuple, data and destination:
  they never make \<^verbatim>\<open>send\<close> throw.
\<close>

definition replies :: "(bytes \<Rightarrow> Origin \<Rightarrow> emitted) \<Rightarrow> bool" where
  "replies hook =
     (\<forall>d t. hook d t = Cancelled \<or> (\<exists>d' t'. hook d t = Replaced (Some d') (Some t')))"

text \<open>
  Both traces of a session grow by the same events, all towards one side: \<open>s'\<close> has
  the events \<^verbatim>\<open>data-out\<close> of \<open>s\<close> and then some more, each for the side \<open>to\<close>, and
  when the subscribers let every event through, these are also what was sent since.
\<close>

definition grows :: "env \<Rightarrow> Origin \<Rightarrow> Session \<Rightarrow> Session \<Rightarrow> bool" where
  "grows env to s s' =
     (\<exists>rest. dataOut s' = dataOut s @ rest \<and> (\<forall>x\<in>set rest. snd x = to)
        \<and> (passes (data_out env) \<longrightarrow> sent s' = sent s @ rest))"

text \<open>
  The encryption helper as the specification words it (\<^verbatim>\<open>ciphertext || tag\<close> as a single
  byte array): the calls of the helper, and then the authentication tag, read after
  \<^verbatim>\<open>final\<close>, behind the ciphertext.
\<close>

definition encrypt_tagged ::
  "'c crypto \<Rightarrow> (string \<Rightarrow> bytes) \<Rightarrow> bytes \<Rightarrow> string \<Rightarrow> error + bytes" where
  "encrypt_tagged api fromBase64 data secret64 =
     (let secret = fromBase64 secret64;
          iv = take 16 secret
      in case createCipheriv api ''aes-256-gcm'' secret iv of
           Inl e \<Rightarrow> Inl e
         | Inr cipher \<Rightarrow>
             (case update api cipher data of
                (out1, cipher1) \<Rightarrow>
                  (case final api cipher1 of
                     (out2, cipher2) \<Rightarrow> Inr (out1 @ out2 @ getAuthTag api cipher2))))"

section \<open>Concrete instances\<close>

text \<open>
  A small codec in the place of \<^verbatim>\<open>EncapsulatedPacket\<close>'s (one length byte, then the
  payload), a reader of a one-byte packet id, and an environment built from them, with
  fixed keys.
\<close>

definition prefixed_from :: "EncapsulatedPacket reader" where
  "prefixed_from b =
     (case readByte b of
        Inl e \<Rightarrow> Inl e
      | Inr (n, b1) \<Rightarrow>
          (case readArray b1 (uint n) of
             Inl e \<Rightarrow> Inl e
           | Inr (payload, b2) \<Rightarrow>
               Inr (\<lparr>reliability = 0, sub = payload, index = None, sequence = None,
                     order = None, split = None\<rparr>, b2)))"

definition prefixed_to :: "EncapsulatedPacket \<Rightarrow> bytes" where
  "prefixed_to p = of_nat (length (sub p)) # sub p"

definition idByte :: "nat reader" where
  "idByte b = (case readByte b of Inl e \<Rightarrow> Inl e | Inr (x, b1) \<Rightarrow> Inr (unat x, b1))"

definition proxyKeys :: KeyPair where
  "proxyKeys = \<lparr>privateKey = ''proxy-private'', publicKey = ''proxy-public''\<rparr>"

definition clientToken :: JWT where
  "clientToken = \<lparr>header_x5u = ''client-key'', payload_salt = [],
                  payload_identityPublicKey = ''client-key'', signature = ''client''\<rparr>"

definition serverToken :: JWT where
  "serverToken = \<lparr>header_x5u = ''server-key'', payload_salt = ''server-salt'',
                  payload_identityPublicKey = [], signature = ''server''\<rparr>"

definition testEnv :: env where
  "testEnv =
     \<lparr>data_in = (\<lambda>d f. Replaced (Some d) (Some f)),
      data_out = (\<lambda>d t. Replaced (Some d) (Some t)),
      header = idByte,
      Open2Request_id = 7,
      Open2Reply_id = 8,
      Open2Request_from = (\<lambda>b. Inr (1400, b)),
      datagramOf = (\<lambda>d. Inr Ignored),
      ACK_export = (\<lambda>a. 0xC0 # concat (map writeLTriad a)),
      EncapsulatedPacket_to = prefixed_to,
      BatchPacket_id = 0xFE,
      BatchPacket_from = (\<lambda>b. Inr ([drop (offset b) (array b)], b)),
      BatchPacket_export = (\<lambda>ps. 0xFE # concat ps),
      EncryptedBatch_from = (\<lambda>c b. Inr ([drop (offset b) (array b)], b)),
      EncryptedBatch_export = (\<lambda>c ps. 0xFE # concat ps),
      BedrockPacket_header = idByte,
      LoginPacket_id = 1,
      LoginPacket_from = (\<lambda>b. Inr (\<lparr>tokens = [clientToken], client = clientToken\<rparr>, b)),
      LoginPacket_export = (\<lambda>l. [1, of_nat (length (tokens l))]),
      ResourcePackResponse_id = 8,
      ResourcePackResponse_from = (\<lambda>b. Inr (0, b)),
      ServerHandshakePacket_from = (\<lambda>b. Inr (serverToken, b)),
      ServerHandshakePacket_export = (\<lambda>t. [3, of_nat (length (payload_salt t))]),
      genKeyPair = proxyKeys,
      getRandomValues = replicate 16 0x2A,
      toB64 = (\<lambda>b. ''KioqKioqKioqKioqKioqKg==''),
      diffieHellman = (\<lambda>priv pub s. Inr [of_nat (length pub), of_nat (length s)]),
      signature_of = (\<lambda>kp t. publicKey kp)\<rparr>"

definition reliablePacket :: "nat \<Rightarrow> EncapsulatedPacket" where
  "reliablePacket i =
     \<lparr>reliability = 2, sub = [], index = Some i, sequence = None, order = None, split = None\<rparr>"

definition fragment :: "nat \<Rightarrow> bytes \<Rightarrow> EncapsulatedPacket" where
  "fragment i payload =
     \<lparr>reliability = 0, sub = payload, index = None, sequence = None, order = None,
      split = Some \<lparr>split_count = 3, split_id = 7, split_index = i\<rparr>\<rparr>"

definition payload8 :: EncapsulatedPacket where
  "payload8 =
     \<lparr>reliability = 2, sub = [1, 2, 3, 4, 5, 6, 7, 8], index = Some 0, sequence = None,
      order = None, split = None\<rparr>"

definition mtu64 :: Session where
  "mtu64 = newSession\<lparr>state := Online, mtuSize := 64\<rparr>"

definition slot :: "nat \<Rightarrow> SplitMemory option" where
  "slot i = Some \<lparr>mem_id = i, mem_packets = []\<rparr>"

text \<open>
  A session after the login has been intercepted, and a session in the state
  \<open>Encrypted\<close> that holds an earlier salt.
\<close>

definition loggedIn :: Session where
  "loggedIn =
     newSession\<lparr>state := Online, keyPair := Some proxyKeys, salt := ''KioqKioqKioqKioqKioqKg=='',
                clientBatch := Some (EncryptedBatchPacket [10, 24] Client)\<rparr>"

definition encrypted :: Session where
  "encrypted =
     loggedIn\<lparr>state := Encrypted, salt := ''earlier'',
               serverBatch := Some (EncryptedBatchPacket [1, 2, 3] Server)\<rparr>"

text \<open>
  Subscribers of \<^verbatim>\<open>data-in\<close> that answer with a byte array of length zero, with a
  reader of the packet id that fails on it (\<open>emptyReply\<close>) and with one that returns an
  id all the same (\<open>emptyReplyLenient\<close>); and subscribers that answer without the data
  (\<^verbatim>\<open>data-in\<close>) and without the destination (\<^verbatim>\<open>data-out\<close>).
\<close>

definition emptyReply :: env where
  "emptyReply = testEnv\<lparr>data_in := (\<lambda>d f. Replaced (Some []) (Some Client))\<rparr>"

definition emptyReplyLenient :: env where
  "emptyReplyLenient = emptyReply\<lparr>header := (\<lambda>b. Inr (0, b))\<rparr>"

definition droppingEnv :: env where
  "droppingEnv =
     testEnv\<lparr>data_in := (\<lambda>d f. Replaced None (Some f)),
              data_out := (\<lambda>d t. Replaced (Some d) None)\<rparr>"

text \<open>
  A secret for the encryption helper: the base64 of the 32 bytes \<open>00\<close> to \<open>1F\<close>, these
  bytes, and the fifteen round keys of their key schedule.
\<close>

definition exampleKey :: bytes where
  "exampleKey = [0x00, 0x01, 0x02, 0x03, 0x04, 0x05, 0x06, 0x07, 0x08, 0x09, 0x0A, 0x0B, 0x0C, 0x0D, 0x0E, 0x0F,
      0x10, 0x11, 0x12, 0x13, 0x14, 0x15, 0x16, 0x17, 0x18, 0x19, 0x1A, 0x1B, 0x1C, 0x1D, 0x1E, 0x1F]"

definition exampleSchedule :: bytes where
  "exampleSchedule = [0x00, 0x01, 0x02, 0x03, 0x04, 0x05, 0x06, 0x07, 0x08, 0x09, 0x0A, 0x0B, 0x0C, 0x0D, 0x0E, 0x0F,
      0x10, 0x11, 0x12, 0x13, 0x14, 0x15, 0x16, 0x17, 0x18, 0x19, 0x1A, 0x1B, 0x1C, 0x1D, 0x1E, 0x1F,
      0xA5, 0x73, 0xC2, 0x9F, 0xA1, 0x76, 0xC4, 0x98, 0xA9, 0x7F, 0xCE, 0x93, 0xA5, 0x72, 0xC0, 0x9C,
      0x16, 0x51, 0xA8, 0xCD, 0x02, 0x44, 0xBE, 0xDA, 0x1A, 0x5D, 0xA4, 0xC1, 0x06, 0x40, 0xBA, 0xDE,
      0xAE, 0x87, 0xDF, 0xF0, 0x0F, 0xF1, 0x1B, 0x68, 0xA6, 0x8E, 0xD5, 0xFB, 0x03, 0xFC, 0x15, 0x67,
      0x6D, 0xE1, 0xF1, 0x48, 0x6F, 0xA5, 0x4F, 0x92, 0x75, 0xF8, 0xEB, 0x53, 0x73, 0xB8, 0x51, 0x8D,
      0xC6, 0x56, 0x82, 0x7F, 0xC9, 0xA7, 0x99, 0x17, 0x6F, 0x29, 0x4C, 0xEC, 0x6C, 0xD5, 0x59, 0x8B,
      0x3D, 0xE2, 0x3A, 0x75, 0x52, 0x47, 0x75, 0xE7, 0x27, 0xBF, 0x9E, 0xB4, 0x54, 0x07, 0xCF, 0x39,
      0x0B, 0xDC, 0x90, 0x5F, 0xC2, 0x7B, 0x09, 0x48, 0xAD, 0x52, 0x45, 0xA4, 0xC1, 0x87, 0x1C, 0x2F,
      0x45, 0xF5, 0xA6, 0x60, 0x17, 0xB2, 0xD3, 0x87, 0x30, 0x0D, 0x4D, 0x33, 0x64, 0x0A, 0x82, 0x0A,
      0x7C, 0xCF, 0xF7, 0x1C, 0xBE, 0xB4, 0xFE, 0x54, 0x13, 0xE6, 0xBB, 0xF0, 0xD2, 0x61, 0xA7, 0xDF,
      0xF0, 0x1A, 0xFA, 0xFE, 0xE7, 0xA8, 0x29, 0x79, 0xD7, 0xA5, 0x64, 0x4A, 0xB3, 0xAF, 0xE6, 0x40,
      0x25, 0x41, 0xFE, 0x71, 0x9B, 0xF5, 0x00, 0x25, 0x88, 0x13, 0xBB, 0xD5, 0x5A, 0x72, 0x1C, 0x0A,
      0x4E, 0x5A, 0x66, 0x99, 0xA9, 0xF2, 0x4F, 0xE0, 0x7E, 0x57, 0x2B, 0xAA, 0xCD, 0xF8, 0xCD, 0xEA,
      0x24, 0xFC, 0x79, 0xCC, 0xBF, 0x09, 0x79, 0xE9, 0x37, 0x1A, 0xC2, 0x3C, 0x6D, 0x68, 0xDE, 0x36]"

definition exampleSecret :: string where
  "exampleSecret = ''AAECAwQFBgcICQoLDA0ODxAREhMUFRYXGBkaGxwdHh8=''"

definition datagram5 :: Datagram where
  "datagram5 = \<lparr>headerFlags = 0x84, seqNumber = 5, packets = [payload8]\<rparr>"

text \<open>
  Peers that negotiate the MTU 50: an \<^verbatim>\<open>Open2Request\<close> that carries this MTU, and a
  reader of datagrams that returns \<open>datagram5\<close>. \<open>lowMtu\<close> is the session after the
  request of the client and the reply of the server.
\<close>

definition lowMtuEnv :: env where
  "lowMtuEnv =
     testEnv\<lparr>Open2Request_from := (\<lambda>b. Inr (50, b)),
              datagramOf := (\<lambda>d. Inr (IsDatagram datagram5))\<rparr>"

definition lowMtu :: Session where
  "lowMtu =
     newSession\<lparr>state := Online, mtuSize := 50,
                dataOut := [([7], Server), ([8], Client)],
                sent := [([7], Server), ([8], Client)]\<rparr>"

section \<open>Split memory: the slot table\<close>

lemma findIndex_None: "findIndex P xs = None \<longleftrightarrow> (\<forall>x\<in>set xs. \<not> P x)"
  by (induction xs) auto

lemma findIndex_Some:
  "findIndex P xs = Some k \<longleftrightarrow> k < length xs \<and> P (xs ! k) \<and> (\<forall>j<k. \<not> P (xs ! j))"
proof (induction xs arbitrary: k)
  case Nil
  then show ?case by simp
next
  case (Cons x xs)
  show ?case
  proof (cases "P x")
    case True
    then show ?thesis by (cases k) auto
  next
    case False
    show ?thesis
    proof (cases k)
      case 0
      with False show ?thesis by auto
    next
      case (Suc n)
      with False Cons.IH [of n] show ?thesis
        by (auto simp: less_Suc_eq_0_disj)
    qed
  qed
qed

lemma hasId_iff: "hasId i m \<longleftrightarrow> (\<exists>mem. m = Some mem \<and> mem_id mem = i)"
  by (cases m) (auto simp: hasId_def)

lemma memoryOf_fails_iff:
  "memoryOf splits i = Inl TooManySplits
     \<longleftrightarrow> (\<forall>m\<in>set splits. \<exists>mem. m = Some mem \<and> mem_id mem \<noteq> i)"
proof
  assume "memoryOf splits i = Inl TooManySplits"
  then have "findIndex (hasId i) splits = None" "findIndex (\<lambda>m. m = None) splits = None"
    by (auto simp: memoryOf_def Let_def split: option.splits)
  then show "\<forall>m\<in>set splits. \<exists>mem. m = Some mem \<and> mem_id mem \<noteq> i"
    by (auto simp: findIndex_None hasId_iff)
next
  assume a: "\<forall>m\<in>set splits. \<exists>mem. m = Some mem \<and> mem_id mem \<noteq> i"
  then have "findIndex (hasId i) splits = None"
    by (fastforce simp: findIndex_None hasId_iff)
  moreover from a have "findIndex (\<lambda>m. m = None) splits = None"
    by (fastforce simp: findIndex_None)
  ultimately show "memoryOf splits i = Inl TooManySplits"
    by (simp add: memoryOf_def)
qed

lemma memoryOf_match:
  assumes "k < length splits" "hasId i (splits ! k)" "\<forall>j<k. \<not> hasId i (splits ! j)"
  shows "memoryOf splits i = Inr (k, splits ! k, splits)"
proof -
  from assms have "findIndex (hasId i) splits = Some k"
    by (simp add: findIndex_Some)
  then show ?thesis
    by (simp add: memoryOf_def)
qed

lemma memoryOf_allocate:
  assumes "\<forall>m\<in>set splits. \<not> hasId i m" "k < length splits" "splits ! k = None"
    "\<forall>j<k. splits ! j \<noteq> None"
  shows "memoryOf splits i
           = Inr (k, Some \<lparr>mem_id = i, mem_packets = []\<rparr>,
                  splits[k := Some \<lparr>mem_id = i, mem_packets = []\<rparr>])"
proof -
  from assms have "findIndex (hasId i) splits = None"
    by (simp add: findIndex_None)
  moreover from assms have "findIndex (\<lambda>m. m = None) splits = Some k"
    by (simp add: findIndex_Some)
  ultimately show ?thesis
    by (simp add: memoryOf_def Let_def)
qed

lemma memoryOf_length:
  assumes "memoryOf splits i = Inr (k, m, splits')"
  shows "length splits' = length splits"
  using assms by (auto simp: memoryOf_def Let_def split: option.splits)

text \<open>
  Claim C8. \<open>memoryOf\<close> fails with \<open>TooManySplits\<close> exactly when no slot holds the
  requested id and every slot is occupied. When a slot holds the id, the first such slot
  is returned and the table is unchanged; otherwise the first empty slot is allocated
  with an empty memory for the id. The table keeps its length, so a table of four slots
  never holds more than four reassemblies.
\<close>

theorem memoryOf_slots:
  "(memoryOf splits i = Inl TooManySplits
      \<longleftrightarrow> (\<forall>m\<in>set splits. \<exists>mem. m = Some mem \<and> mem_id mem \<noteq> i))
   \<and> (\<forall>k. k < length splits \<and> hasId i (splits ! k) \<and> (\<forall>j<k. \<not> hasId i (splits ! j))
          \<longrightarrow> memoryOf splits i = Inr (k, splits ! k, splits))
   \<and> (\<forall>k. (\<forall>m\<in>set splits. \<not> hasId i m) \<and> k < length splits \<and> splits ! k = None
            \<and> (\<forall>j<k. splits ! j \<noteq> None)
          \<longrightarrow> memoryOf splits i
                = Inr (k, Some \<lparr>mem_id = i, mem_packets = []\<rparr>,
                       splits[k := Some \<lparr>mem_id = i, mem_packets = []\<rparr>]))
   \<and> (\<forall>k m splits'. memoryOf splits i = Inr (k, m, splits')
          \<longrightarrow> length splits' = length splits
              \<and> length (filter (\<lambda>x. x \<noteq> None) splits') \<le> length splits)"
proof -
  have "length (filter (\<lambda>x. x \<noteq> None) splits') \<le> length splits"
    if "memoryOf splits i = Inr (k, m, splits')" for k m splits'
    using memoryOf_length [OF that] length_filter_le [of "\<lambda>x. x \<noteq> None" splits'] by simp
  then show ?thesis
    using memoryOf_fails_iff [of splits i] memoryOf_match [of _ splits i]
      memoryOf_allocate [of splits i] memoryOf_length [of splits i]
    by blast
qed

theorem memoryOf_slots_witness:
  "memoryOf [slot 1, slot 2, slot 3, slot 4] 5 = Inl TooManySplits
   \<and> memoryOf [slot 1, slot 2, slot 3, slot 4] 3 = Inr (2, slot 3, [slot 1, slot 2, slot 3, slot 4])
   \<and> memoryOf [slot 1, None, slot 3, None] 5 = Inr (1, slot 5, [slot 1, slot 5, slot 3, None])"
proof -
  have "\<forall>m\<in>set [slot 1, slot 2, slot 3, slot 4]. \<exists>mem. m = Some mem \<and> mem_id mem \<noteq> 5"
    by (simp add: slot_def)
  then have full: "memoryOf [slot 1, slot 2, slot 3, slot 4] 5 = Inl TooManySplits"
    using memoryOf_slots [of "[slot 1, slot 2, slot 3, slot 4]" 5] by blast
  have "(2::nat) < length [slot 1, slot 2, slot 3, slot 4]
      \<and> hasId 3 ([slot 1, slot 2, slot 3, slot 4] ! 2)
      \<and> (\<forall>j<2. \<not> hasId 3 ([slot 1, slot 2, slot 3, slot 4] ! j))"
    by (simp add: slot_def hasId_def numeral_2_eq_2 All_less_Suc)
  then have "memoryOf [slot 1, slot 2, slot 3, slot 4] 3
      = Inr (2, [slot 1, slot 2, slot 3, slot 4] ! 2, [slot 1, slot 2, slot 3, slot 4])"
    using memoryOf_slots [of "[slot 1, slot 2, slot 3, slot 4]" 3] by blast
  then have match: "memoryOf [slot 1, slot 2, slot 3, slot 4] 3
      = Inr (2, slot 3, [slot 1, slot 2, slot 3, slot 4])"
    by simp
  have "(\<forall>m\<in>set [slot 1, None, slot 3, None]. \<not> hasId 5 m)
      \<and> (1::nat) < length [slot 1, None, slot 3, None]
      \<and> [slot 1, None, slot 3, None] ! 1 = None
      \<and> (\<forall>j<1. [slot 1, None, slot 3, None] ! j \<noteq> None)"
    by (simp add: slot_def hasId_def)
  then have "memoryOf [slot 1, None, slot 3, None] 5
      = Inr (1, Some \<lparr>mem_id = 5, mem_packets = []\<rparr>,
             [slot 1, None, slot 3, None][1 := Some \<lparr>mem_id = 5, mem_packets = []\<rparr>])"
    using memoryOf_slots [of "[slot 1, None, slot 3, None]" 5] by blast
  then have allocate: "memoryOf [slot 1, None, slot 3, None] 5
      = Inr (1, slot 5, [slot 1, slot 5, slot 3, None])"
    by (simp add: slot_def)
  from full match allocate show ?thesis
    by simp
qed

section \<open>The datagram codec: round trip\<close>

lemma split_low_byte:
  fixes x k :: nat
  assumes "x < 256"
  shows "(x + 256 * k) mod 256 = x" and "(x + 256 * k) div 256 = k"
  using assms by simp_all

lemma triad_roundtrip:
  fixes a b c :: byte
  shows "writeLTriad (unat a + 256 * unat b + 65536 * unat c) = [a, b, c]"
proof -
  define k where "k = unat b + 256 * unat c"
  define n where "n = unat a + 256 * k"
  have a: "unat a < 256" and b: "unat b < 256" and c: "unat c < 256"
    using unsigned_less [of a] unsigned_less [of b] unsigned_less [of c] by simp_all
  have 1: "n mod 256 = unat a" and d: "n div 256 = k"
    unfolding n_def using split_low_byte [OF a] by simp_all
  have 2: "n div 256 mod 256 = unat b" and e: "n div 256 div 256 = unat c"
    unfolding d k_def using split_low_byte [OF b] by simp_all
  have "n div 65536 = n div 256 div 256"
    by (simp add: div_mult2_eq [symmetric])
  then have 3: "n div 65536 mod 256 = unat c"
    using c by (simp add: e)
  have "unat a + 256 * unat b + 65536 * unat c = n"
    by (simp add: n_def k_def)
  then show ?thesis
    unfolding writeLTriad_def by (simp add: 1 2 3)
qed

lemma readPackets_roundtrip:
  assumes "readPackets dec buffer acc = Some r"
  shows "roundtrips dec enc \<Longrightarrow> r = Inr ps
    \<Longrightarrow> offset buffer \<le> length (array buffer)
    \<Longrightarrow> concat (map enc ps) = concat (map enc acc) @ drop (offset buffer) (array buffer)"
  using assms
proof (induction arbitrary: ps rule: readPackets.raw_induct [rotated, consumes 1, case_names step])
  case (step rp dec buffer acc r)
  note IH = step(1) and unfolded = step(2) and codec = step(3) and r = step(4) and le0 = step(5)
  show ?case
  proof (cases "remaining buffer = 0")
    case True
    with unfolded r le0 show ?thesis
      by (simp add: remaining_def)
  next
    case False
    with unfolded r obtain p b' where d: "dec buffer = Inr (p, b')"
      and rec: "rp dec b' (acc @ [p]) = Some r"
      by (auto split: sum.splits)
    from d codec have arr: "array b' = array buffer"
      and le: "offset buffer \<le> offset b'" "offset b' \<le> length (array buffer)"
      and enc: "enc p = consumed buffer b'"
      unfolding roundtrips_def by blast+
    have "concat (map enc ps) = concat (map enc (acc @ [p])) @ drop (offset b') (array b')"
      using IH [OF rec codec r] le arr by simp
    moreover have "consumed buffer b' @ drop (offset b') (array buffer) = drop (offset buffer) (array buffer)"
    proof -
      have "drop (offset b') (array buffer) = drop (offset b' - offset buffer) (drop (offset buffer) (array buffer))"
        using le by simp
      then show ?thesis
        unfolding consumed_def by (simp only: append_take_drop_id)
    qed
    ultimately show ?thesis
      using enc arr by simp
  qed
qed

lemma readPackets_end:
  "remaining b = 0 \<Longrightarrow> readPackets dec b acc = Some (Inr acc)"
  by (subst readPackets.simps) simp

lemma readPackets_next:
  "remaining b \<noteq> 0 \<Longrightarrow> dec b = Inr (p, b')
    \<Longrightarrow> readPackets dec b acc = readPackets dec b' (acc @ [p])"
  by (subst readPackets.simps) simp

lemma prefixed_roundtrips: "roundtrips prefixed_from prefixed_to"
  unfolding roundtrips_def
proof (intro allI impI)
  fix b p b'
  assume "prefixed_from b = Inr (p, b')"
  then obtain n b1 where rb: "readByte b = Inr (n, b1)"
    and ra: "readArray b1 (uint n) = Inr (sub p, b')"
    by (auto simp: prefixed_from_def split: sum.splits)
  from rb have rem: "1 \<le> remaining b" and n: "n = array b ! offset b"
    and b1: "b1 = b\<lparr>offset := offset b + 1\<rparr>"
    by (auto simp: readByte_def split: if_splits)
  from ra have nolt: "\<not> int (remaining b1) < uint n"
    and p: "sub p = take (unat n) (drop (offset b1) (array b1))"
    and b': "b' = b1\<lparr>offset := offset b1 + unat n\<rparr>"
    by (auto simp: readArray_def split: if_splits)
  from nolt [unfolded uint_nat of_nat_less_iff] have fits: "unat n \<le> remaining b - 1"
    by (simp add: b1 remaining_def)
  note p = p [unfolded b1, simplified] and b' = b' [unfolded b1, simplified]
  from rem fits have len: "offset b + 1 + unat n \<le> length (array b)"
    by (simp add: remaining_def)
  then have "length (sub p) = unat n"
    by (simp add: p)
  then have "prefixed_to p = n # take (unat n) (drop (offset b + 1) (array b))"
    by (simp add: prefixed_to_def p)
  moreover have "consumed b b' = n # take (unat n) (drop (offset b + 1) (array b))"
  proof -
    have "drop (offset b) (array b) = n # drop (offset b + 1) (array b)"
      using len by (simp add: n Cons_nth_drop_Suc)
    then show ?thesis
      by (simp add: consumed_def b')
  qed
  ultimately show "array b' = array b \<and> offset b \<le> offset b' \<and> offset b' \<le> length (array b)
        \<and> prefixed_to p = consumed b b'"
    using len by (simp add: b')
qed

lemma prefixed_from_example:
  "Datagram_from prefixed_from (newBuffer [0x84, 1, 0, 0, 2, 0xAA, 0xBB])
     = Some (Inr \<lparr>headerFlags = 0x84, seqNumber = 1,
                   packets = [\<lparr>reliability = 0, sub = [0xAA, 0xBB], index = None,
                               sequence = None, order = None, split = None\<rparr>]\<rparr>)"
proof -
  have "readPackets prefixed_from \<lparr>array = [0x84, 1, 0, 0, 2, 0xAA, 0xBB], offset = 4\<rparr> []
      = readPackets prefixed_from \<lparr>array = [0x84, 1, 0, 0, 2, 0xAA, 0xBB], offset = 7\<rparr>
          [\<lparr>reliability = 0, sub = [0xAA, 0xBB], index = None,
                               sequence = None, order = None, split = None\<rparr>]"
    by (subst readPackets_next)
       (simp_all add: remaining_def prefixed_from_def readByte_def readArray_def)
  also have "\<dots> = Some (Inr [\<lparr>reliability = 0, sub = [0xAA, 0xBB], index = None,
                               sequence = None, order = None, split = None\<rparr>])"
    by (simp add: readPackets_end remaining_def)
  finally show ?thesis
    by (simp add: Datagram_from_def newBuffer_def readByte_def readLTriad_def remaining_def)
qed

text \<open>
  Claim C9, as stated, fails: \<^verbatim>\<open>Datagram.from\<close> accepts any header byte, and
  \<^verbatim>\<open>Datagram.to\<close> writes \<^verbatim>\<open>flag_valid | headerFlags\<close>. The four bytes \<open>00 00 00 00\<close>
  parse (flags 0, sequence number 0, no packet) and are written back as \<open>80 00 00 00\<close>.
\<close>

theorem Datagram_roundtrip_counterexample:
  "Datagram_from prefixed_from (newBuffer [0, 0, 0, 0])
     = Some (Inr \<lparr>headerFlags = 0, seqNumber = 0, packets = []\<rparr>)
   \<and> Datagram_to prefixed_to \<lparr>headerFlags = 0, seqNumber = 0, packets = []\<rparr> = [0x80, 0, 0, 0]
   \<and> Datagram_to prefixed_to \<lparr>headerFlags = 0, seqNumber = 0, packets = []\<rparr> \<noteq> [0, 0, 0, 0]"
  by (simp add: Datagram_from_def newBuffer_def readByte_def readLTriad_def remaining_def
      readPackets_end Datagram_to_def writeLTriad_def flag_valid_def)

text \<open>
  Claim C9, amended. For every byte sequence whose first byte has the bit \<open>0x80\<close> set
  and that \<^verbatim>\<open>Datagram.from\<close> parses, \<^verbatim>\<open>Datagram.to\<close> writes the original bytes back,
  given that the codec of the encapsulated packets round-trips.
\<close>

theorem Datagram_roundtrip:
  assumes "roundtrips dec enc"
    and "Datagram_from dec (newBuffer data) = Some (Inr d)"
    and "flag_valid OR hd data = hd data"
  shows "Datagram_to enc d = data"
proof -
  from assms(2) obtain flags b1 seq b2 ps where
    rb: "readByte (newBuffer data) = Inr (flags, b1)"
    and rt: "readLTriad b1 = Inr (seq, b2)"
    and rp: "readPackets dec b2 [] = Some (Inr ps)"
    and d: "d = \<lparr>headerFlags = flags, seqNumber = seq, packets = ps\<rparr>"
    by (auto simp: Datagram_from_def split: sum.splits option.splits)
  from rb have len1: "data \<noteq> []" and flags: "flags = data ! 0"
    and b1: "b1 = \<lparr>array = data, offset = 1\<rparr>"
    by (auto simp: readByte_def newBuffer_def remaining_def split: if_splits)
  from rt b1 have len4: "4 \<le> length data"
    and seq: "seq = unat (data ! 1) + 256 * unat (data ! 2) + 65536 * unat (data ! 3)"
    and b2: "b2 = \<lparr>array = data, offset = 4\<rparr>"
    by (auto simp: readLTriad_def remaining_def numeral_2_eq_2 numeral_3_eq_3 split: if_splits)
  have packets: "concat (map enc ps) = drop 4 data"
    using readPackets_roundtrip [OF rp assms(1) refl] b2 len4 by simp
  have triad: "writeLTriad seq = [data ! 1, data ! 2, data ! 3]"
    unfolding seq by (rule triad_roundtrip)
  have hd: "hd data = data ! 0"
    using len1 by (cases data) auto
  have "data = take 4 data @ drop 4 data"
    by simp
  moreover have "take 4 data = [data ! 0, data ! 1, data ! 2, data ! 3]"
  proof -
    have "0 < length data" "1 < length data" "2 < length data" "3 < length data"
      using len4 by linarith+
    then have "take (Suc (Suc (Suc (Suc 0)))) data = [data ! 0, data ! 1, data ! 2, data ! 3]"
      by (simp add: take_Suc_conv_app_nth eval_nat_numeral)
    then show ?thesis
      by (simp add: eval_nat_numeral)
  qed
  ultimately have "data = [data ! 0, data ! 1, data ! 2, data ! 3] @ drop 4 data"
    by simp
  moreover have "Datagram_to enc d = [data ! 0, data ! 1, data ! 2, data ! 3] @ drop 4 data"
    using assms(3) by (simp add: Datagram_to_def d flags triad packets hd)
  ultimately show ?thesis
    by simp
qed

theorem Datagram_roundtrip_witness:
  "Datagram_to prefixed_to
     \<lparr>headerFlags = 0x84, seqNumber = 1,
      packets = [\<lparr>reliability = 0, sub = [0xAA, 0xBB], index = None,
                  sequence = None, order = None, split = None\<rparr>]\<rparr>
     = [0x84, 1, 0, 0, 2, 0xAA, 0xBB]"
  using Datagram_roundtrip [OF prefixed_roundtrips prefixed_from_example]
  by (simp add: flag_valid_def)

section \<open>Inbound packets: the reliable window and the split reassembly\<close>

lemma slideWindow_once:
  "start \<in> S \<Longrightarrow> slideWindow start S w
     = (S - {start}, w\<lparr>w_start := w_start w + 1, w_end := w_end w + 1\<rparr>)"
  by (subst slideWindow.simps) (simp add: slideWindow.simps [of start "S - {start}"])

text \<open>
  Claim C2 at the indices 1 and then 0 from the client, on a new session. Both are
  admitted. After the second, the indices 0 and 1 are a contiguous prefix, and the claim
  has the window at \<open>{2, 2050}\<close> and the set empty. The loop of the source tests the
  constant \<^verbatim>\<open>start\<close>, so it runs once: the window stands at \<open>{1, 2049}\<close> and the set
  still holds 1.
\<close>

theorem admitReliable_out_of_order:
  "fst (admitReliable (reliablePacket 0) Client
          (snd (admitReliable (reliablePacket 1) Client newSession))) = Inr True
   \<and> clientReliableWindow (snd (admitReliable (reliablePacket 0) Client
          (snd (admitReliable (reliablePacket 1) Client newSession))))
       = \<lparr>w_start = 1, w_end = 2049\<rparr>
   \<and> clientPacketIndexes (snd (admitReliable (reliablePacket 0) Client
          (snd (admitReliable (reliablePacket 1) Client newSession)))) = {1}"
  by (simp add: admitReliable_def reliablePacket_def isReliable_def newSession_def inRange_def
      reliableWindowOf_def packetIndexesOf_def setPacketIndexes_def setReliableWindow_def
      slideWindow_once Let_def)

text \<open>
  Claim C1 at a split set of three fragments with the payloads \<open>0A\<close>, \<open>0B\<close>, \<open>0C\<close>,
  delivered in the order 2, 1, 0, 2. Fragment 0 is dropped although no fragment 0 was
  stored (\<^verbatim>\<open>splice\<close> put fragment 2 at position 0), and the second copy of fragment 2
  completes the set: the reassembled payload is \<open>0C 0B 0C\<close>, not \<open>0A 0B 0C\<close>.
\<close>

theorem reassembleSplit_out_of_order:
  "fst (reassembleSplit (fragment 0 [0xA]) Client
         (snd (reassembleSplit (fragment 1 [0xB]) Client
           (snd (reassembleSplit (fragment 2 [0xC]) Client newSession))))) = Inr None
   \<and> clientSplits (snd (reassembleSplit (fragment 0 [0xA]) Client
         (snd (reassembleSplit (fragment 1 [0xB]) Client
           (snd (reassembleSplit (fragment 2 [0xC]) Client newSession))))))
       = [Some \<lparr>mem_id = 7, mem_packets = [fragment 2 [0xC], fragment 1 [0xB]]\<rparr>,
          None, None, None]
   \<and> fst (reassembleSplit (fragment 2 [0xC]) Client
         (snd (reassembleSplit (fragment 0 [0xA]) Client
           (snd (reassembleSplit (fragment 1 [0xB]) Client
             (snd (reassembleSplit (fragment 2 [0xC]) Client newSession)))))))
       = Inr (Some ((fragment 2 [0xC])\<lparr>sub := [0xC, 0xB, 0xC], split := None\<rparr>))"
  by (simp add: reassembleSplit_def fragment_def newSession_def splitsOf_def setSplits_def
      memoryOf_def hasId_def insert_at_def Let_def)

section \<open>Outbound fragmentation\<close>

lemma readFragments_done:
  "quot < i \<Longrightarrow> readFragments i quot remainder maxSize buffer buffers = Inr buffers"
  by (subst readFragments.simps) simp

lemma readFragments_last:
  fixes data :: bytes
  assumes "0 < m" "Q = length data div m"
  shows "readFragments (int Q) (int Q) (int (length data mod m)) (int m)
           \<lparr>array = data, offset = Q * m\<rparr> acc
         = Inr (acc @ [drop (Q * m) data])"
proof -
  have rem: "length data - Q * m = length data mod m"
    using assms by (simp add: minus_div_mult_eq_mod)
  have "readArray \<lparr>array = data, offset = Q * m\<rparr> (int (length data mod m))
          = Inr (drop (Q * m) data, \<lparr>array = data, offset = Q * m + length data mod m\<rparr>)"
    by (simp add: readArray_def remaining_def rem)
  then show ?thesis
    by (subst readFragments.simps) (simp add: readFragments_done)
qed

lemma readFragments_chunks:
  fixes data :: bytes
  assumes "0 < m" "Q = length data div m"
  shows "k \<le> Q \<Longrightarrow>
         readFragments (int k) (int Q) (int (length data mod m)) (int m)
           \<lparr>array = data, offset = k * m\<rparr> acc
         = Inr (acc @ map (\<lambda>j. take m (drop (j * m) data)) [k..<Q] @ [drop (Q * m) data])"
proof (induction k arbitrary: acc rule: inc_induct)
  case base
  show ?case
    using readFragments_last [OF assms] by simp
next
  case (step n)
  have "Suc n * m \<le> Q * m"
    using step.hyps(2) by (simp add: Suc_leI del: mult_Suc)
  also have "Q * m \<le> length data"
    using assms by simp
  finally have room: "n * m + m \<le> length data"
    by simp
  then have "m \<le> remaining \<lparr>array = data, offset = n * m\<rparr>"
    by (simp add: remaining_def)
  then have "\<not> (int m < 0 \<or> int (remaining \<lparr>array = data, offset = n * m\<rparr>) < int m)"
    by (simp only: of_nat_less_iff of_nat_less_0_iff) simp
  then have "readArray \<lparr>array = data, offset = n * m\<rparr> (int m)
          = Inr (take m (drop (n * m) data), \<lparr>array = data, offset = Suc n * m\<rparr>)"
    unfolding readArray_def by (simp only: if_False) (simp add: add.commute)
  moreover have "int n + 1 = int (Suc n)"
    by simp
  ultimately have unfold: "readFragments (int n) (int Q) (int (length data mod m)) (int m)
           \<lparr>array = data, offset = n * m\<rparr> acc
      = readFragments (int (Suc n)) (int Q) (int (length data mod m)) (int m)
           \<lparr>array = data, offset = Suc n * m\<rparr> (acc @ [take m (drop (n * m) data)])"
    using step.hyps(2) by (subst readFragments.simps) (simp del: mult_Suc add: add.commute)
  have "[n..<Q] = n # [Suc n..<Q]"
    using step.hyps(2) by (simp add: upt_conv_Cons)
  then show ?case
    unfolding unfold step.IH by simp
qed

lemma concat_chunks:
  "concat (map (\<lambda>j. take m (drop (j * m) data)) [0..<n]) = take (n * m) data"
proof (induction n)
  case 0
  then show ?case by simp
next
  case (Suc n)
  have "take (n * m + m) data = take (n * m) data @ take m (drop (n * m) data)"
    by (rule take_add)
  with Suc show ?case
    by (simp add: add.commute)
qed

lemma chunk_length:
  assumes "j < length data div m"
  shows "length (take m (drop (j * m) data)) = m"
proof -
  have "Suc j * m \<le> (length data div m) * m"
    using assms by (simp add: Suc_leI del: mult_Suc)
  also have "\<dots> \<le> length data"
    by simp
  finally show ?thesis
    by simp
qed

lemma send_passes:
  "passes (data_out env) \<Longrightarrow>
     send env d t s = (Inr (), s\<lparr>dataOut := dataOut s @ [(d, t)], sent := sent s @ [(d, t)]\<rparr>)"
  by (simp add: send_def passes_def)

lemma send_traces:
  "dataOut (snd (send env d t s)) = dataOut s @ [(d, t)]"
  "passes (data_out env) \<Longrightarrow> sent (snd (send env d t s)) = sent s @ [(d, t)]"
  by (simp_all add: send_def Let_def passes_def split: emitted.splits option.splits)

lemma passes_replies: "passes hook \<Longrightarrow> replies hook"
  by (simp add: passes_def replies_def)

lemma send_replies:
  assumes "replies (data_out env)"
  shows "fst (send env d t s) = Inr ()"
  using assms [unfolded replies_def, rule_format, of d t]
  by (auto simp: send_def Let_def)

lemma send_counters:
  "clientPacketIndex (snd (send env d t s)) = clientPacketIndex s"
  "serverPacketIndex (snd (send env d t s)) = serverPacketIndex s"
  "clientSeqNumber (snd (send env d t s)) = clientSeqNumber s"
  "serverSeqNumber (snd (send env d t s)) = serverSeqNumber s"
  by (simp_all add: send_def Let_def split: emitted.splits option.splits)

lemma sendFragments_passes:
  assumes "passes (data_out env)"
  shows "fst (sendFragments env packet sp to i chunks s) = Inr ()
    \<and> sent (snd (sendFragments env packet sp to i chunks s))
        = sent s @ map (\<lambda>k. (Datagram_export env
              \<lparr>headerFlags = flag_valid,
               seqNumber = (if to = Client then clientSeqNumber s else serverSeqNumber s) + k,
               packets = [\<lparr>reliability = reliability packet, sub = chunks ! k,
                           index = Some ((if to = Client then clientPacketIndex s
                                          else serverPacketIndex s) + k),
                           sequence = sequence packet, order = order packet,
                           split = map_option (\<lambda>x. x\<lparr>split_index := i + k\<rparr>) sp\<rparr>]\<rparr>, to))
            [0..<length chunks]"
proof (induction chunks arbitrary: i sp s)
  case Nil
  show ?case by simp
next
  case (Cons chunk rest)
  have sp: "map_option (\<lambda>x. x\<lparr>split_index := j\<rparr>) (map_option (\<lambda>x. x\<lparr>split_index := i\<rparr>) sp)
          = map_option (\<lambda>x. x\<lparr>split_index := j\<rparr>) sp" for j
    by (cases sp) simp_all
  show ?case
  proof (cases to)
    case Client
    show ?thesis
      unfolding Client
      by (simp add: Let_def sendDatagram_def send_passes [OF assms] Cons.IH [unfolded Client] sp
          map_upt_Suc del: upt_Suc)
  next
    case Server
    show ?thesis
      unfolding Server
      by (simp add: Let_def sendDatagram_def send_passes [OF assms] Cons.IH [unfolded Server] sp
          map_upt_Suc del: upt_Suc)
  qed
qed

lemma sendFragments_events:
  assumes "replies (data_out env)"
  shows "fst (sendFragments env packet sp to i chunks s) = Inr ()
    \<and> dataOut (snd (sendFragments env packet sp to i chunks s))
        = dataOut s @ map (\<lambda>k. (Datagram_export env
              \<lparr>headerFlags = flag_valid,
               seqNumber = (if to = Client then clientSeqNumber s else serverSeqNumber s) + k,
               packets = [\<lparr>reliability = reliability packet, sub = chunks ! k,
                           index = Some ((if to = Client then clientPacketIndex s
                                          else serverPacketIndex s) + k),
                           sequence = sequence packet, order = order packet,
                           split = map_option (\<lambda>x. x\<lparr>split_index := i + k\<rparr>) sp\<rparr>]\<rparr>, to))
            [0..<length chunks]"
proof (induction chunks arbitrary: i sp s)
  case Nil
  show ?case by simp
next
  case (Cons chunk rest)
  define sp1 where "sp1 = map_option (\<lambda>x. x\<lparr>split_index := i\<rparr>) sp"
  define s2 where "s2 = (if to = Client
      then s\<lparr>clientPacketIndex := clientPacketIndex s + 1, clientSeqNumber := clientSeqNumber s + 1\<rparr>
      else s\<lparr>serverPacketIndex := serverPacketIndex s + 1, serverSeqNumber := serverSeqNumber s + 1\<rparr>)"
  define datagram where "datagram =
     \<lparr>headerFlags = flag_valid,
      seqNumber = (if to = Client then clientSeqNumber s else serverSeqNumber s),
      packets = [\<lparr>reliability = reliability packet, sub = chunk,
                  index = Some (if to = Client then clientPacketIndex s else serverPacketIndex s),
                  sequence = sequence packet, order = order packet, split = sp1\<rparr>]\<rparr>"
  define s3 where "s3 = snd (send env (Datagram_export env datagram) to s2)"
  have sd: "sendDatagram env datagram to s2 = (Inr (), s3)"
    using send_replies [OF assms, of "Datagram_export env datagram" to s2]
    by (simp add: sendDatagram_def s3_def prod_eq_iff)
  have run: "sendFragments env packet sp to i (chunk # rest) s
      = sendFragments env packet sp1 to (i + 1) rest s3"
    using sd unfolding sendFragments.simps Let_def sp1_def s2_def datagram_def
    by (cases to) simp_all
  have ev: "dataOut s3 = dataOut s @ [(Datagram_export env datagram, to)]"
    unfolding s3_def by (simp add: send_traces s2_def)
  have counters:
    "(if to = Client then clientSeqNumber s3 else serverSeqNumber s3)
       = (if to = Client then clientSeqNumber s else serverSeqNumber s) + 1"
    "(if to = Client then clientPacketIndex s3 else serverPacketIndex s3)
       = (if to = Client then clientPacketIndex s else serverPacketIndex s) + 1"
    unfolding s3_def by (simp_all add: send_counters s2_def)
  have sp: "map_option (\<lambda>x. x\<lparr>split_index := j\<rparr>) sp1 = map_option (\<lambda>x. x\<lparr>split_index := j\<rparr>) sp"
    for j
    unfolding sp1_def by (cases sp) simp_all
  have head: "map_option (\<lambda>x. x\<lparr>split_index := i\<rparr>) sp = sp1"
    by (simp add: sp1_def)
  show ?case
    unfolding run
    using Cons.IH [of sp1 "i + 1" s3]
    by (simp add: ev counters sp head map_upt_Suc datagram_def del: upt_Suc)
qed

text \<open>
  Claim C3, as stated, fails: nothing keeps \<open>mtuSize\<close> above 60. \<^verbatim>\<open>handleOffline\<close>
  takes the minimum of the MTU of an \<^verbatim>\<open>Open2Request\<close> and its own, with no lower bound.
  After a request with the MTU 50 and the reply, \<open>maxPayload\<close> is \<open>-10\<close>; for the payload
  of eight bytes the quotient is \<open>-1\<close>, the first loop reads no fragment, and
  \<open>sendPacket\<close> returns with no event emitted and nothing sent: the fragments it emits do
  not make up the payload. The datagram that carries this packet is acknowledged to the
  client, and its packet never reaches the server. With the MTU 60, \<open>maxPayload\<close> is zero,
  the quotient is \<^verbatim>\<open>Infinity\<close> and the first loop never ends. And with the MTU 64, where
  the payload makes three fragments, a subscriber of \<^verbatim>\<open>data-out\<close> that answers without
  the destination makes \<open>send\<close> throw at the first fragment: one event is emitted, not
  three, and nothing is sent.
\<close>

theorem sendPacket_fragments_counterexample:
  "snd (handle lowMtuEnv [8] Server (snd (handle lowMtuEnv [7] Client newSession))) = lowMtu
   \<and> mtuSize lowMtu - 60 = - 10
   \<and> sub payload8 = [1, 2, 3, 4, 5, 6, 7, 8]
   \<and> sendPacket lowMtuEnv payload8 Server lowMtu = (Inr (), lowMtu)
   \<and> fst (handle lowMtuEnv [0x84] Client lowMtu) = Inr ()
   \<and> dataOut (snd (handle lowMtuEnv [0x84] Client lowMtu))
       = dataOut lowMtu @ [([0xC0, 5, 0, 0], Client)]
   \<and> sendPacket lowMtuEnv payload8 Server (lowMtu\<lparr>mtuSize := 60\<rparr>)
       = (Inl Hangs, lowMtu\<lparr>mtuSize := 60\<rparr>)
   \<and> fst (sendPacket droppingEnv payload8 Server mtu64) = Inl EventError
   \<and> length (dataOut (snd (sendPacket droppingEnv payload8 Server mtu64))) = 1
   \<and> sent (snd (sendPacket droppingEnv payload8 Server mtu64)) = []"
proof -
  have request: "handle lowMtuEnv [7] Client newSession
      = (Inr (), newSession\<lparr>mtuSize := 50, dataOut := [([7], Server)], sent := [([7], Server)]\<rparr>)"
    by (simp add: handle_def handleOffline_def send_def lowMtuEnv_def testEnv_def idByte_def
        readByte_def readArray_def newBuffer_def remaining_def newSession_def)
  have reply: "handle lowMtuEnv [8] Server
        (newSession\<lparr>mtuSize := 50, dataOut := [([7], Server)], sent := [([7], Server)]\<rparr>)
      = (Inr (), lowMtu)"
    by (simp add: handle_def handleOffline_def send_def lowMtuEnv_def testEnv_def idByte_def
        readByte_def readArray_def newBuffer_def remaining_def newSession_def lowMtu_def)
  have lost: "sendPacket lowMtuEnv payload8 Server s = (Inr (), s)" if "mtuSize s = 50" for s
    using that by (simp add: sendPacket_def payload8_def readFragments_done)
  have hangs: "sendPacket lowMtuEnv payload8 Server (lowMtu\<lparr>mtuSize := 60\<rparr>)
       = (Inl Hangs, lowMtu\<lparr>mtuSize := 60\<rparr>)"
    by (simp add: sendPacket_def payload8_def)
  have datagram: "handle lowMtuEnv [0x84] Client lowMtu
      = (Inr (), lowMtu\<lparr>clientReliableWindow := \<lparr>w_start = 1, w_end = 2049\<rparr>,
                        dataOut := dataOut lowMtu @ [([0xC0, 5, 0, 0], Client)],
                        sent := sent lowMtu @ [([0xC0, 5, 0, 0], Client)]\<rparr>)"
    by (simp add: handle_def handleOnline_def handleDatagram_def sendAck_def send_def
        handlePacket_def admitReliable_def reassembleSplit_def sendPacket_def readFragments_done
        lowMtuEnv_def testEnv_def datagram5_def payload8_def lowMtu_def newSession_def
        writeLTriad_def isReliable_def inRange_def reliableWindowOf_def packetIndexesOf_def
        setPacketIndexes_def setReliableWindow_def slideWindow_once Let_def
        idByte_def readByte_def readArray_def newBuffer_def remaining_def)
  have c1: "snd (handle lowMtuEnv [8] Server (snd (handle lowMtuEnv [7] Client newSession)))
      = lowMtu"
    by (simp only: request reply snd_conv)
  have c2: "mtuSize lowMtu - 60 = - 10"
    by (simp add: lowMtu_def)
  have c3: "sub payload8 = [1, 2, 3, 4, 5, 6, 7, 8]"
    by (simp add: payload8_def)
  have c4: "sendPacket lowMtuEnv payload8 Server lowMtu = (Inr (), lowMtu)"
    by (rule lost) (simp add: lowMtu_def)
  have c5: "fst (handle lowMtuEnv [0x84] Client lowMtu) = Inr ()"
    by (simp only: datagram fst_conv)
  have c6: "dataOut (snd (handle lowMtuEnv [0x84] Client lowMtu))
      = dataOut lowMtu @ [([0xC0, 5, 0, 0], Client)]"
    by (simp add: datagram)
  have throws: "fst (sendPacket droppingEnv payload8 Server mtu64) = Inl EventError
      \<and> length (dataOut (snd (sendPacket droppingEnv payload8 Server mtu64))) = 1
      \<and> sent (snd (sendPacket droppingEnv payload8 Server mtu64)) = []"
    by (simp add: sendPacket_def payload8_def mtu64_def newSession_def readFragments.simps
        readArray_def newBuffer_def remaining_def sendDatagram_def send_def droppingEnv_def
        testEnv_def Let_def)
  have c7: "fst (sendPacket droppingEnv payload8 Server mtu64) = Inl EventError"
    and c8: "length (dataOut (snd (sendPacket droppingEnv payload8 Server mtu64))) = 1"
    and c9: "sent (snd (sendPacket droppingEnv payload8 Server mtu64)) = []"
    using throws by blast+
  show ?thesis
    by (intro conjI) (fact c1 c2 c3 c4 c5 c6 hangs c7 c8 c9)+
qed

text \<open>
  Claim C3, amended. In a session with \<open>mtuSize\<close> above 60, so that
  \<open>maxPayload = mtuSize - 60\<close> is positive, and with subscribers of \<^verbatim>\<open>data-out\<close>
  that never make \<open>send\<close> throw, \<open>sendPacket\<close> returns, and it emits
  \<open>L div maxPayload + 1\<close> datagrams for the side \<open>to\<close>, one fragment each: the fragments
  have the sizes \<open>maxPayload, \<dots>, maxPayload, L mod maxPayload\<close> (the last one empty when
  \<open>maxPayload\<close> divides \<open>L\<close>), the \<open>k\<close>-th has the split index \<open>k\<close> when there is more
  than one, and their payloads in that order are the payload of the packet. When the
  subscribers let every event through, these datagrams are what is sent.
\<close>

theorem sendPacket_fragments:
  assumes "60 < mtuSize s" and "replies (data_out env)"
  shows "\<exists>frags events.
      length frags = length (sub packet) div nat (mtuSize s - 60) + 1
    \<and> map length frags
        = replicate (length (sub packet) div nat (mtuSize s - 60)) (nat (mtuSize s - 60))
          @ [length (sub packet) mod nat (mtuSize s - 60)]
    \<and> concat frags = sub packet
    \<and> events
        = map (\<lambda>k. (Datagram_export env
              \<lparr>headerFlags = flag_valid,
               seqNumber = (if to = Client then clientSeqNumber s else serverSeqNumber s) + k,
               packets = [\<lparr>reliability = reliability packet, sub = frags ! k,
                           index = Some ((if to = Client then clientPacketIndex s
                                          else serverPacketIndex s) + k),
                           sequence = sequence packet, order = order packet,
                           split = (if 1 < length frags
                                    then Some \<lparr>split_count = length frags,
                                               split_id = (if to = Client then clientSplitID s
                                                           else serverSplitID s) mod 65536,
                                               split_index = k\<rparr>
                                    else None)\<rparr>]\<rparr>, to))
            [0..<length frags]
    \<and> fst (sendPacket env packet to s) = Inr ()
    \<and> dataOut (snd (sendPacket env packet to s)) = dataOut s @ events
    \<and> (passes (data_out env) \<longrightarrow> sent (snd (sendPacket env packet to s)) = sent s @ events)"
proof -
  define m where "m = nat (mtuSize s - 60)"
  define data where "data = sub packet"
  define Q where "Q = length data div m"
  define frags where "frags = map (\<lambda>j. take m (drop (j * m) data)) [0..<Q] @ [drop (Q * m) data]"
  define sp where "sp = (if 1 < length frags
           then Some \<lparr>split_count = length frags,
                      split_id = (if to = Client then clientSplitID s else serverSplitID s) mod 65536,
                      split_index = 0\<rparr>
           else None)"
  define s1 where "s1 = (if 1 < length frags
           then (if to = Client then s\<lparr>clientSplitID := clientSplitID s + 1\<rparr>
                 else s\<lparr>serverSplitID := serverSplitID s + 1\<rparr>)
           else s)"
  define events where "events = map (\<lambda>k. (Datagram_export env
              \<lparr>headerFlags = flag_valid,
               seqNumber = (if to = Client then clientSeqNumber s else serverSeqNumber s) + k,
               packets = [\<lparr>reliability = reliability packet, sub = frags ! k,
                           index = Some ((if to = Client then clientPacketIndex s
                                          else serverPacketIndex s) + k),
                           sequence = sequence packet, order = order packet,
                           split = (if 1 < length frags
                                    then Some \<lparr>split_count = length frags,
                                               split_id = (if to = Client then clientSplitID s
                                                           else serverSplitID s) mod 65536,
                                               split_index = k\<rparr>
                                    else None)\<rparr>]\<rparr>, to))
            [0..<length frags]"
  have m: "0 < m" "mtuSize s - 60 = int m" "mtuSize s - 60 \<noteq> 0"
    using assms(1) by (simp_all add: m_def)
  have len: "length frags = Q + 1"
    by (simp add: frags_def)
  have lens: "map length frags = replicate Q m @ [length data mod m]"
  proof -
    have "map (\<lambda>j. length (take m (drop (j * m) data))) [0..<Q] = map (\<lambda>j. m) [0..<Q]"
      by (rule map_cong [OF refl]) (simp add: chunk_length Q_def del: length_take)
    then show ?thesis
      by (simp add: frags_def comp_def map_replicate_const Q_def minus_div_mult_eq_mod
          del: length_take)
  qed
  have cat: "concat frags = data"
  proof -
    have "concat frags = take (Q * m) data @ drop (Q * m) data"
      unfolding frags_def by (simp add: concat_chunks)
    then show ?thesis by simp
  qed
  have read: "readFragments 0 (int (length data) div int m) (int (length data) mod \<bar>int m\<bar>)
                (int m) (newBuffer data) [] = Inr frags"
  proof -
    have "int (length data) div int m = int Q" "int (length data) mod \<bar>int m\<bar> = int (length data mod m)"
      by (simp_all add: Q_def zdiv_int zmod_int)
    then show ?thesis
      using readFragments_chunks [OF m(1) Q_def, of 0 "[]"]
      by (simp add: newBuffer_def frags_def)
  qed
  have run: "sendPacket env packet to s = sendFragments env packet sp to 0 frags s1"
    using m(3) read unfolding sendPacket_def m(2) data_def [symmetric] sp_def s1_def
    by (simp add: Let_def)
  have same: "(if to = Client then clientSeqNumber s1 else serverSeqNumber s1)
                = (if to = Client then clientSeqNumber s else serverSeqNumber s)"
    "(if to = Client then clientPacketIndex s1 else serverPacketIndex s1)
                = (if to = Client then clientPacketIndex s else serverPacketIndex s)"
    "dataOut s1 = dataOut s" "sent s1 = sent s"
    by (simp_all add: s1_def)
  have descr: "map_option (\<lambda>x. x\<lparr>split_index := 0 + k\<rparr>) sp
      = (if 1 < length frags
         then Some \<lparr>split_count = length frags,
                    split_id = (if to = Client then clientSplitID s
                                else serverSplitID s) mod 65536,
                    split_index = k\<rparr>
         else None)" for k
    by (simp add: sp_def)
  have returns: "fst (sendPacket env packet to s) = Inr ()"
    unfolding run using sendFragments_events [OF assms(2)] by blast
  have emitted: "dataOut (snd (sendPacket env packet to s)) = dataOut s @ events"
    unfolding run events_def
    by (simp only: conjunct2 [OF sendFragments_events [OF assms(2)]] same descr)
  have wire: "sent (snd (sendPacket env packet to s)) = sent s @ events"
    if "passes (data_out env)"
    unfolding run events_def
    by (simp only: conjunct2 [OF sendFragments_passes [OF that]] same descr)
  show ?thesis
  proof (intro exI [of _ frags] exI [of _ events] conjI impI)
    show "length frags = length (sub packet) div nat (mtuSize s - 60) + 1"
      using len by (simp add: Q_def data_def m_def)
    show "map length frags
        = replicate (length (sub packet) div nat (mtuSize s - 60)) (nat (mtuSize s - 60))
          @ [length (sub packet) mod nat (mtuSize s - 60)]"
      using lens by (simp add: Q_def data_def m_def)
    show "concat frags = sub packet"
      using cat by (simp add: data_def)
    show "events
        = map (\<lambda>k. (Datagram_export env
              \<lparr>headerFlags = flag_valid,
               seqNumber = (if to = Client then clientSeqNumber s else serverSeqNumber s) + k,
               packets = [\<lparr>reliability = reliability packet, sub = frags ! k,
                           index = Some ((if to = Client then clientPacketIndex s
                                          else serverPacketIndex s) + k),
                           sequence = sequence packet, order = order packet,
                           split = (if 1 < length frags
                                    then Some \<lparr>split_count = length frags,
                                               split_id = (if to = Client then clientSplitID s
                                                           else serverSplitID s) mod 65536,
                                               split_index = k\<rparr>
                                    else None)\<rparr>]\<rparr>, to))
            [0..<length frags]"
      by (rule events_def)
    show "fst (sendPacket env packet to s) = Inr ()"
      by (rule returns)
    show "dataOut (snd (sendPacket env packet to s)) = dataOut s @ events"
      by (rule emitted)
    show "sent (snd (sendPacket env packet to s)) = sent s @ events"
      if "passes (data_out env)"
      using that by (rule wire)
  qed
qed

theorem sendPacket_fragments_witness:
  "60 < mtuSize mtu64 \<and> replies (data_out testEnv) \<and> passes (data_out testEnv)
   \<and> (\<exists>frags events. length frags = 3 \<and> map length frags = [4, 4, 0]
         \<and> concat frags = sub payload8
         \<and> fst (sendPacket testEnv payload8 Server mtu64) = Inr ()
         \<and> dataOut (snd (sendPacket testEnv payload8 Server mtu64)) = events
         \<and> sent (snd (sendPacket testEnv payload8 Server mtu64)) = events)"
proof -
  have mtu: "60 < mtuSize mtu64"
    by (simp add: mtu64_def newSession_def)
  have hook: "passes (data_out testEnv)"
    by (simp add: passes_def testEnv_def)
  have size: "length (sub payload8) div nat (mtuSize mtu64 - 60) + 1 = 3"
    "replicate (length (sub payload8) div nat (mtuSize mtu64 - 60)) (nat (mtuSize mtu64 - 60))
       @ [length (sub payload8) mod nat (mtuSize mtu64 - 60)] = [4, 4, 0]"
    by (simp_all add: payload8_def mtu64_def newSession_def numeral_2_eq_2)
  have empty: "dataOut mtu64 = []" "sent mtu64 = []"
    by (simp_all add: mtu64_def newSession_def)
  from sendPacket_fragments [OF mtu passes_replies [OF hook], of payload8 Server]
  obtain frags events where
    "length frags = length (sub payload8) div nat (mtuSize mtu64 - 60) + 1"
    "map length frags
        = replicate (length (sub payload8) div nat (mtuSize mtu64 - 60)) (nat (mtuSize mtu64 - 60))
          @ [length (sub payload8) mod nat (mtuSize mtu64 - 60)]"
    "concat frags = sub payload8"
    "fst (sendPacket testEnv payload8 Server mtu64) = Inr ()"
    "dataOut (snd (sendPacket testEnv payload8 Server mtu64)) = dataOut mtu64 @ events"
    "passes (data_out testEnv)
       \<longrightarrow> sent (snd (sendPacket testEnv payload8 Server mtu64)) = sent mtu64 @ events"
    by blast
  then show ?thesis
    unfolding size empty using mtu hook passes_replies [OF hook] by auto
qed

section \<open>Login and handshake interception\<close>

lemma handleLoginPacket_stores:
  assumes "handleLoginPacket env buffer s0 = (Inr r, s)"
  shows "salt s = toB64 env (getRandomValues env) \<and> keyPair s = Some (genKeyPair env)"
  using assms
  by (auto simp: handleLoginPacket_def Let_def split: sum.splits if_splits)

text \<open>
  Claim C4. When the handshake parses, the session holds a key pair and the key
  agreement succeeds, \<open>handleHandshakePacket\<close> stores the codec built from the
  agreement of the proxy's private key with the server's key \<^verbatim>\<open>header.x5u\<close> and the
  server's salt, with the origin \<open>Server\<close>; the token it writes out carries the salt of
  the session, which is the salt that the login interception generated when the session
  comes from one; and it leaves the session in the state \<open>Encrypted\<close>.
\<close>

theorem handleHandshakePacket_intercepts:
  assumes "ServerHandshakePacket_from env buffer = Inr (token, buffer')"
    and "keyPair s = Some kp"
    and "diffieHellman env (privateKey kp) (header_x5u token) (payload_salt token) = Inr secret"
  shows "handleHandshakePacket env buffer s
           = (Inr (ServerHandshakePacket_export env
                     (JWT_sign env kp (token\<lparr>payload_salt := salt s\<rparr>))),
              s\<lparr>serverBatch := Some (EncryptedBatchPacket secret Server), state := Encrypted\<rparr>)
    \<and> payload_salt (JWT_sign env kp (token\<lparr>payload_salt := salt s\<rparr>)) = salt s
    \<and> serverBatch (snd (handleHandshakePacket env buffer s))
         = Some (EncryptedBatchPacket secret Server)
    \<and> state (snd (handleHandshakePacket env buffer s)) = Encrypted
    \<and> (\<forall>login s0 r. handleLoginPacket env login s0 = (Inr r, s)
          \<longrightarrow> payload_salt (JWT_sign env kp (token\<lparr>payload_salt := salt s\<rparr>))
                = toB64 env (getRandomValues env))"
proof -
  have run: "handleHandshakePacket env buffer s
           = (Inr (ServerHandshakePacket_export env
                     (JWT_sign env kp (token\<lparr>payload_salt := salt s\<rparr>))),
              s\<lparr>serverBatch := Some (EncryptedBatchPacket secret Server), state := Encrypted\<rparr>)"
    using assms by (simp add: handleHandshakePacket_def Let_def)
  have out: "payload_salt (JWT_sign env kp (token\<lparr>payload_salt := salt s\<rparr>)) = salt s"
    by (simp add: JWT_sign_def)
  have login: "payload_salt (JWT_sign env kp (token\<lparr>payload_salt := salt s\<rparr>))
          = toB64 env (getRandomValues env)"
    if "handleLoginPacket env login s0 = (Inr r, s)" for login s0 r
    using handleLoginPacket_stores [OF that] out by simp
  show ?thesis
  proof (intro conjI allI impI)
    show "handleHandshakePacket env buffer s
           = (Inr (ServerHandshakePacket_export env
                     (JWT_sign env kp (token\<lparr>payload_salt := salt s\<rparr>))),
              s\<lparr>serverBatch := Some (EncryptedBatchPacket secret Server), state := Encrypted\<rparr>)"
      by (rule run)
    show "payload_salt (JWT_sign env kp (token\<lparr>payload_salt := salt s\<rparr>)) = salt s"
      by (rule out)
    show "serverBatch (snd (handleHandshakePacket env buffer s))
         = Some (EncryptedBatchPacket secret Server)"
      by (simp add: run)
    show "state (snd (handleHandshakePacket env buffer s)) = Encrypted"
      by (simp add: run)
    show "payload_salt (JWT_sign env kp (token\<lparr>payload_salt := salt s\<rparr>))
          = toB64 env (getRandomValues env)"
      if "handleLoginPacket env login s0 = (Inr r, s)" for login s0 r
      using that by (rule login)
  qed
qed

theorem handleHandshakePacket_intercepts_witness:
  "handleHandshakePacket testEnv \<lparr>array = [3], offset = 1\<rparr> loggedIn
     = (Inr (ServerHandshakePacket_export testEnv
               (JWT_sign testEnv proxyKeys (serverToken\<lparr>payload_salt := salt loggedIn\<rparr>))),
        loggedIn\<lparr>serverBatch := Some (EncryptedBatchPacket [10, 11] Server), state := Encrypted\<rparr>)
   \<and> payload_salt (JWT_sign testEnv proxyKeys (serverToken\<lparr>payload_salt := salt loggedIn\<rparr>))
       = ''KioqKioqKioqKioqKioqKg==''
   \<and> handleLoginPacket testEnv (newBuffer [1]) (newSession\<lparr>state := Online\<rparr>)
       = (Inr ([1, 1], newBuffer [1]), loggedIn)"
proof -
  have parse: "ServerHandshakePacket_from testEnv \<lparr>array = [3], offset = 1\<rparr>
      = Inr (serverToken, \<lparr>array = [3], offset = 1\<rparr>)"
    by (simp add: testEnv_def)
  have keys: "keyPair loggedIn = Some proxyKeys"
    by (simp add: loggedIn_def)
  have dh: "diffieHellman testEnv (privateKey proxyKeys) (header_x5u serverToken)
      (payload_salt serverToken) = Inr [10, 11]"
    by (simp add: testEnv_def serverToken_def)
  have login: "handleLoginPacket testEnv (newBuffer [1]) (newSession\<lparr>state := Online\<rparr>)
       = (Inr ([1, 1], newBuffer [1]), loggedIn)"
    by (simp add: handleLoginPacket_def testEnv_def loggedIn_def newSession_def Let_def
        clientToken_def JWT_sign_def proxyKeys_def)
  from handleHandshakePacket_intercepts [OF parse keys dh] login show ?thesis
    by (simp add: loggedIn_def)
qed


lemma handleLoginPacket_state:
  "handleLoginPacket env buffer (s\<lparr>state := st\<rparr>)
     = (fst (handleLoginPacket env buffer s), (snd (handleLoginPacket env buffer s))\<lparr>state := st\<rparr>)"
  by (simp add: handleLoginPacket_def Let_def split: sum.splits)

lemma handleHandshakePacket_state:
  "fst (handleHandshakePacket env buffer (s\<lparr>state := st\<rparr>)) = fst (handleHandshakePacket env buffer s)"
  "(snd (handleHandshakePacket env buffer (s\<lparr>state := st\<rparr>)))\<lparr>state := x\<rparr>
     = (snd (handleHandshakePacket env buffer s))\<lparr>state := x\<rparr>"
  by (simp_all add: handleHandshakePacket_def Let_def split: sum.splits option.splits)

lemma handleBedrock_state:
  "fst (handleBedrock env data from (s\<lparr>state := st\<rparr>)) = fst (handleBedrock env data from s)"
  "(snd (handleBedrock env data from (s\<lparr>state := st\<rparr>)))\<lparr>state := x\<rparr>
     = (snd (handleBedrock env data from s))\<lparr>state := x\<rparr>"
proof -
  show "fst (handleBedrock env data from (s\<lparr>state := st\<rparr>)) = fst (handleBedrock env data from s)"
    by (cases "handleLoginPacket env (snd (projr (BedrockPacket_header env (newBuffer data)))) s")
       (auto simp: handleBedrock_def handleLoginPacket_state handleHandshakePacket_state
        split: sum.splits prod.splits)
  show "(snd (handleBedrock env data from (s\<lparr>state := st\<rparr>)))\<lparr>state := x\<rparr>
     = (snd (handleBedrock env data from s))\<lparr>state := x\<rparr>"
    by (cases "handleLoginPacket env (snd (projr (BedrockPacket_header env (newBuffer data)))) s")
       (auto simp: handleBedrock_def handleLoginPacket_state handleHandshakePacket_state
        split: sum.splits prod.splits)
qed


text \<open>
  Claim C6, as stated, fails: nothing in \<open>handleBatch\<close> or \<open>handleBedrock\<close> compares
  the state with \<open>Online\<close>. In the state \<open>Encrypted\<close>, a handshake from the server is
  intercepted again (the server codec is replaced, the token leaves with the session's
  salt), and so is a login from the client (a new salt is stored).
\<close>

theorem handleBatch_state_counterexample:
  "state encrypted = Encrypted
   \<and> handleBatch testEnv \<lparr>array = [0xFE, 3, 9], offset = 1\<rparr> Server encrypted
       = (Inr [0xFE, 3, 7],
          encrypted\<lparr>serverBatch := Some (EncryptedBatchPacket [10, 11] Server)\<rparr>)
   \<and> handleBatch testEnv \<lparr>array = [0xFE, 1, 9], offset = 1\<rparr> Client encrypted
       = (Inr [0xFE, 1, 1], encrypted\<lparr>salt := ''KioqKioqKioqKioqKioqKg==''\<rparr>)"
  by (simp add: handleBatch_def handleEncryptedBatch_def handleBedrock_def
      handleHandshakePacket_def handleLoginPacket_def encrypted_def loggedIn_def
      newSession_def testEnv_def idByte_def readByte_def remaining_def newBuffer_def
      ServerHandshakePacket_id_def serverToken_def clientToken_def proxyKeys_def JWT_sign_def
      Let_def)

text \<open>
  Claim C6, amended. What \<open>handleBedrock\<close> returns does not depend on the state of
  the session, and the sessions it leaves differ in their state at most. A packet with
  the id of the handshake from the server goes to \<open>handleHandshakePacket\<close>, and a packet
  with the id of the login from the client to \<open>handleLoginPacket\<close>, whatever the state;
  nothing is dropped for it.
\<close>

theorem handleBedrock_ignores_state:
  "fst (handleBedrock env data from (s\<lparr>state := st\<rparr>)) = fst (handleBedrock env data from s)
   \<and> (snd (handleBedrock env data from (s\<lparr>state := st\<rparr>)))\<lparr>state := x\<rparr>
       = (snd (handleBedrock env data from s))\<lparr>state := x\<rparr>
   \<and> (\<forall>buffer. BedrockPacket_header env (newBuffer data) = Inr (ServerHandshakePacket_id, buffer)
          \<longrightarrow> handleBedrock env data Server s = handleHandshakePacket env buffer s)
   \<and> (\<forall>buffer. BedrockPacket_header env (newBuffer data) = Inr (LoginPacket_id env, buffer)
            \<and> LoginPacket_id env \<noteq> ResourcePackResponse_id env
          \<longrightarrow> handleBedrock env data Client s
                = (case handleLoginPacket env buffer s of
                     (Inl e, s1) \<Rightarrow> (Inl e, s1)
                   | (Inr (data1, buffer1), s1) \<Rightarrow> (Inr data1, s1)))"
proof (intro conjI allI impI)
  show "fst (handleBedrock env data from (s\<lparr>state := st\<rparr>)) = fst (handleBedrock env data from s)"
    by (rule handleBedrock_state)
  show "(snd (handleBedrock env data from (s\<lparr>state := st\<rparr>)))\<lparr>state := x\<rparr>
       = (snd (handleBedrock env data from s))\<lparr>state := x\<rparr>"
    by (rule handleBedrock_state)
  show "handleBedrock env data Server s = handleHandshakePacket env buffer s"
    if "BedrockPacket_header env (newBuffer data) = Inr (ServerHandshakePacket_id, buffer)"
    for buffer
    using that by (simp add: handleBedrock_def split: prod.splits sum.splits)
  show "handleBedrock env data Client s
                = (case handleLoginPacket env buffer s of
                     (Inl e, s1) \<Rightarrow> (Inl e, s1)
                   | (Inr (data1, buffer1), s1) \<Rightarrow> (Inr data1, s1))"
    if "BedrockPacket_header env (newBuffer data) = Inr (LoginPacket_id env, buffer)
            \<and> LoginPacket_id env \<noteq> ResourcePackResponse_id env"
    for buffer
    using that by (auto simp: handleBedrock_def split: prod.splits sum.splits)
qed

theorem handleBedrock_ignores_state_witness:
  "handleBedrock testEnv [3, 9] Server encrypted
     = handleHandshakePacket testEnv \<lparr>array = [3, 9], offset = 1\<rparr> encrypted
   \<and> handleBedrock testEnv [1, 9] Client encrypted
     = (Inr [1, 1], encrypted\<lparr>salt := ''KioqKioqKioqKioqKioqKg==''\<rparr>)
   \<and> fst (handleBedrock testEnv [3, 9] Server (encrypted\<lparr>state := Online\<rparr>))
     = fst (handleBedrock testEnv [3, 9] Server encrypted)"
proof -
  have hs: "BedrockPacket_header testEnv (newBuffer [3, 9])
      = Inr (ServerHandshakePacket_id, \<lparr>array = [3, 9], offset = 1\<rparr>)"
    by (simp add: testEnv_def idByte_def readByte_def remaining_def newBuffer_def
        ServerHandshakePacket_id_def)
  have lg: "BedrockPacket_header testEnv (newBuffer [1, 9])
      = Inr (LoginPacket_id testEnv, \<lparr>array = [1, 9], offset = 1\<rparr>)
      \<and> LoginPacket_id testEnv \<noteq> ResourcePackResponse_id testEnv"
    by (simp add: testEnv_def idByte_def readByte_def remaining_def newBuffer_def)
  have login: "handleLoginPacket testEnv \<lparr>array = [1, 9], offset = 1\<rparr> encrypted
      = (Inr ([1, 1], \<lparr>array = [1, 9], offset = 1\<rparr>),
         encrypted\<lparr>salt := ''KioqKioqKioqKioqKioqKg==''\<rparr>)"
    by (simp add: handleLoginPacket_def testEnv_def encrypted_def loggedIn_def newSession_def
        Let_def clientToken_def JWT_sign_def proxyKeys_def)
  from handleBedrock_ignores_state [where env = testEnv and data = "[3, 9]" and ?from = Server
        and s = encrypted and st = Online]
    handleBedrock_ignores_state [where env = testEnv and data = "[1, 9]" and ?from = Client
        and s = encrypted]
    hs lg login
  show ?thesis
    by simp
qed


section \<open>Event replacement in handle and send\<close>

text \<open>
  Claim C10, as stated, fails for data that is empty: a byte array of length zero is an
  object, \<^verbatim>\<open>!data\<close> is false, and \<open>handle\<close> goes on. In the state \<open>Offline\<close> it throws
  when the reader of the packet id fails on the empty buffer, and it forwards the empty
  array to the server when the reader returns an id.
\<close>

theorem handle_empty_data_counterexample:
  "handle emptyReply [1] Client newSession = (Inl Malformed, newSession)
   \<and> handle emptyReplyLenient [1] Client newSession
       = (Inr (), newSession\<lparr>dataOut := [([], Server)], sent := [([], Server)]\<rparr>)"
  by (simp add: handle_def emptyReply_def emptyReplyLenient_def testEnv_def newSession_def
      handleOffline_def idByte_def readByte_def remaining_def newBuffer_def send_def)

text \<open>
  Claim C10, amended. When a subscriber of \<^verbatim>\<open>data-in\<close> answers with a tuple whose data
  or origin JavaScript treats as false (\<^verbatim>\<open>undefined\<close>, \<^verbatim>\<open>null\<close>, an empty string),
  \<open>handle\<close> returns without an error and leaves the session as it was, nothing
  emitted and nothing sent. The same answer of a subscriber of \<^verbatim>\<open>data-out\<close> makes
  \<open>send\<close> throw the event error, nothing sent.
\<close>

theorem handle_silent_send_throws:
  assumes "data' = None \<or> origin' = None"
  shows "(data_in env data from = Replaced data' origin' \<longrightarrow> handle env data from s = (Inr (), s))
    \<and> (data_out env data to = Replaced data' origin'
          \<longrightarrow> send env data to s = (Inl EventError, s\<lparr>dataOut := dataOut s @ [(data, to)]\<rparr>))"
  using assms by (auto simp: handle_def send_def split: option.splits)

theorem handle_silent_send_throws_witness:
  "handle droppingEnv [1] Client newSession = (Inr (), newSession)
   \<and> send droppingEnv [1] Server newSession
       = (Inl EventError, newSession\<lparr>dataOut := [([1], Server)]\<rparr>)"
proof -
  have "data_in droppingEnv [1] Client = Replaced None (Some Client)"
    "data_out droppingEnv [1] Server = Replaced (Some [1]) None"
    by (simp_all add: droppingEnv_def)
  then show ?thesis
    using handle_silent_send_throws [where data' = None and origin' = "Some Client"
        and env = droppingEnv and data = "[1]" and ?from = Client and s = newSession]
      handle_silent_send_throws [where data' = "Some [1]" and origin' = None
        and env = droppingEnv and data = "[1]" and to = Server and s = newSession]
    by (simp add: newSession_def)
qed

section \<open>The encryption helper\<close>

text \<open>
  Whatever the module behind it, the helper makes the cipher with \<^verbatim>\<open>"aes-256-gcm"\<close>, the
  decoded secret as the key and the first 16 bytes of the secret as the initialisation
  vector; what it prints is the output of \<^verbatim>\<open>update\<close> followed by the output of
  \<^verbatim>\<open>final\<close>, and it never calls \<^verbatim>\<open>getAuthTag\<close>.
\<close>

lemma encrypt_calls:
  "(encrypt api decode data encoded = Inr out
      \<longleftrightarrow> (\<exists>cipher out1 cipher1 out2 cipher2.
             createCipheriv api ''aes-256-gcm'' (decode encoded)
               (take 16 (decode encoded)) = Inr cipher
           \<and> update api cipher data = (out1, cipher1)
           \<and> final api cipher1 = (out2, cipher2)
           \<and> out = out1 @ out2))
   \<and> encrypt (api\<lparr>getAuthTag := tag\<rparr>) decode data encoded
       = encrypt api decode data encoded"
  by (auto simp: encrypt_def Let_def split: sum.splits prod.splits)

text \<open>The lengths of what the cipher returns, for a key of 32 bytes.\<close>

lemma length_xorBytes: "length (xorBytes a b) = min (length a) (length b)"
  by (simp add: xorBytes_def)

lemma length_ShiftRows: "length (ShiftRows st) = 16"
  by (simp add: ShiftRows_def)

lemma length_rounds:
  "0 < length w \<Longrightarrow> length w mod 16 = 0 \<Longrightarrow> length (rounds w st) = 16"
proof (induction w st rule: rounds.induct)
  case (1 w st)
  show ?case
  proof (cases "drop 16 w = []")
    case True
    then have "length w \<le> 16"
      by simp
    with 1(2,3) have "length w = 16"
      by presburger
    with True show ?thesis
      by (subst rounds.simps) (simp add: AddRoundKey_def length_xorBytes length_ShiftRows)
  next
    case False
    then have more: "16 < length w"
      by simp
    then have "0 < length (drop 16 w)"
      by simp
    moreover have "(length w - 16) mod 16 = 0"
      using more 1(3) by presburger
    then have "length (drop 16 w) mod 16 = 0"
      by simp
    ultimately show ?thesis
      using 1(1) [OF False] False
      by (subst rounds.simps) simp
  qed
qed

lemma length_Cipher: "length w = 240 \<Longrightarrow> length (Cipher w input) = 16"
  by (simp add: Cipher_def length_rounds)

lemma length_chainXor:
  "length t = 4 \<Longrightarrow> length (chainXor t ws) = 4 * (length ws div 4)"
proof (induction t ws rule: chainXor.induct)
  case (1 t a b c d rest)
  have "(4 + length rest) div 4 = 1 + length rest div 4"
    by simp
  with 1 show ?case
    by (simp add: length_xorBytes)
qed simp_all

lemma length_nextKey: "length k = 32 \<Longrightarrow> length (nextKey rc k) = 32"
  by (simp add: nextKey_def nextHalf_def length_chainXor length_xorBytes SubBytes_def
      RotWord_def)

lemma length_expand: "length k = 32 \<Longrightarrow> length (expand rcs k) = 32 * length rcs"
  by (induction rcs arbitrary: k) (simp_all add: length_nextKey)

lemma length_KeyExpansion: "length key = 32 \<Longrightarrow> length (KeyExpansion key) = 240"
  by (simp add: KeyExpansion_def length_expand del: expand.simps)

lemma length_GCTR:
  "length w = 240 \<Longrightarrow> length (GCTR w cb x) = length x"
proof (induction w cb x rule: GCTR.induct)
  case (1 w cb x)
  show ?case
  proof (cases "x = []")
    case True
    then show ?thesis
      by (subst GCTR.simps) simp
  next
    case False
    with 1 show ?thesis
      by (subst GCTR.simps) (simp add: length_xorBytes length_Cipher)
  qed
qed

lemma length_int_bytes: "length (int_bytes n v) = n"
  by (induction n arbitrary: v) simp_all

lemma length_GHASH: "length y = 16 \<Longrightarrow> length (GHASH h y x) = 16"
proof (induction h y x rule: GHASH.induct)
  case (1 h y x)
  show ?case
  proof (cases "x = []")
    case True
    with 1(2) show ?thesis
      by (subst GHASH.simps) simp
  next
    case False
    with 1(1) show ?thesis
      by (subst GHASH.simps) (simp add: length_int_bytes)
  qed
qed

lemma length_gcm_encrypt:
  "length key = 32 \<Longrightarrow> length (gcm_encrypt key iv p) = length p"
  by (simp add: gcm_encrypt_def Let_def length_GCTR length_KeyExpansion)

lemma length_gcm_tag: "length key = 32 \<Longrightarrow> length (gcm_tag key iv p) = 16"
  by (simp add: gcm_tag_def Let_def length_GCTR length_KeyExpansion length_GHASH)

text \<open>The helper on Node's cipher, as the source has it and as the specification words it.\<close>

lemma encrypt_node:
  assumes "decode encoded = key" "length key = 32"
  shows "encrypt nodeCrypto decode data encoded = Inr (gcm_encrypt key (take 16 key) data)"
    and "encrypt_tagged nodeCrypto decode data encoded
           = Inr (gcm_encrypt key (take 16 key) data @ gcm_tag key (take 16 key) data)"
proof -
  have iv: "take 16 key \<noteq> []"
    using assms(2) by auto
  show "encrypt nodeCrypto decode data encoded = Inr (gcm_encrypt key (take 16 key) data)"
    using assms iv by (simp add: encrypt_def nodeCrypto_def)
  show "encrypt_tagged nodeCrypto decode data encoded
      = Inr (gcm_encrypt key (take 16 key) data @ gcm_tag key (take 16 key) data)"
    using assms iv by (simp add: encrypt_tagged_def nodeCrypto_def Let_def)
qed

lemma example_key_length: "length exampleKey = 32"
  by (simp add: exampleKey_def)

text \<open>
  The key of the bytes \<open>00\<close> to \<open>1F\<close>: its schedule, the hash key, the first counter
  block of its first sixteen bytes, and the two blocks of key stream that a payload of at
  most sixteen bytes and its tag need.
\<close>

lemmas aes_eval = xorBytes_def SubBytes_def SubByte_def sbox_def RotWord_def ShiftRows_def
  MixColumn_def xtime_def AddRoundKey_def aesRound_def Cipher_def rounds.simps

lemma int_bytes_numeral:
  "int_bytes (numeral k) v = int_bytes (pred_numeral k) (v div 256) @ [of_int (v mod 256)]"
  by (simp add: numeral_eq_Suc)

lemma replicate_numeral_eval:
  "replicate (numeral k) x = x # replicate (pred_numeral k) x"
  by (simp add: numeral_eq_Suc)

lemmas ghash_eval = GHASH.simps gmult_def gbyte_def gstep_def pad16_def int_bytes_numeral
  replicate_numeral_eval xorBytes_def

lemma example_key: "base64 exampleSecret = exampleKey"
  by (simp add: base64_def unbase64_def exampleKey_def exampleSecret_def)

lemma example_schedule: "KeyExpansion exampleKey = exampleSchedule"
  by (simp add: KeyExpansion_def exampleKey_def exampleSchedule_def nextKey_def nextHalf_def
      aes_eval)

text \<open>
  The example vector of FIPS 197 for a key of 256 bits has this key: the block
  \<open>00 11 22 \<dots> FF\<close> is enciphered to \<open>8E A2 B7 CA 51 67 45 BF EA FC 49 90 4B 49 60 89\<close>.
\<close>

lemma Cipher_example_vector:
  "Cipher (KeyExpansion exampleKey)
     [0x00, 0x11, 0x22, 0x33, 0x44, 0x55, 0x66, 0x77,
      0x88, 0x99, 0xAA, 0xBB, 0xCC, 0xDD, 0xEE, 0xFF]
   = [0x8E, 0xA2, 0xB7, 0xCA, 0x51, 0x67, 0x45, 0xBF,
      0xEA, 0xFC, 0x49, 0x90, 0x4B, 0x49, 0x60, 0x89]"
  unfolding example_schedule
  by (simp add: exampleSchedule_def aes_eval)

lemma example_H: "gcm_H exampleSchedule = 322420880160191610720107348101138642816"
  by (simp add: gcm_H_def exampleSchedule_def bytes_int_def aes_eval)

lemma example_J0:
  "gcm_J0 exampleSchedule (take 16 exampleKey)
     = [239, 32, 29, 129, 3, 222, 134, 17, 24, 170, 84, 84, 14, 177, 125, 134]"
  unfolding gcm_J0_def example_H
  by (simp add: exampleKey_def ghash_eval)

lemma example_stream:
  "Cipher exampleSchedule [239, 32, 29, 129, 3, 222, 134, 17, 24, 170, 84, 84, 14, 177, 125, 135]
     = [103, 108, 160, 118, 57, 228, 74, 40, 157, 255, 219, 41, 85, 164, 44, 179]"
  by (simp add: exampleSchedule_def aes_eval)

lemma example_mask:
  "Cipher exampleSchedule [239, 32, 29, 129, 3, 222, 134, 17, 24, 170, 84, 84, 14, 177, 125, 134]
     = [31, 226, 33, 133, 102, 140, 82, 188, 172, 253, 255, 112, 116, 156, 103, 185]"
  by (simp add: exampleSchedule_def aes_eval)

lemma example_inc32:
  "inc32 [239, 32, 29, 129, 3, 222, 134, 17, 24, 170, 84, 84, 14, 177, 125, 134]
     = [239, 32, 29, 129, 3, 222, 134, 17, 24, 170, 84, 84, 14, 177, 125, 135]"
  by (simp add: inc32_def bytes_int_def int_bytes_numeral)

lemma example_ciphertext:
  "gcm_encrypt exampleKey (take 16 exampleKey) [1, 2, 3] = [0x66, 0x6E, 0xA3]"
  unfolding gcm_encrypt_def Let_def example_schedule example_J0 example_inc32
  by (simp add: GCTR.simps example_stream xorBytes_def)

lemma example_tag:
  "gcm_tag exampleKey (take 16 exampleKey) [1, 2, 3]
     = [0x60, 0x63, 0x80, 0xF1, 0xD3, 0xD9, 0x12, 0xED,
        0xB5, 0x27, 0xF6, 0xEE, 0x31, 0x90, 0xE0, 0x33]"
proof -
  have ct: "GCTR exampleSchedule
              [239, 32, 29, 129, 3, 222, 134, 17, 24, 170, 84, 84, 14, 177, 125, 135] [1, 2, 3]
            = [0x66, 0x6E, 0xA3]"
    by (simp add: GCTR.simps example_stream xorBytes_def)
  have hash: "GHASH 322420880160191610720107348101138642816 (replicate 16 0)
                (pad16 [0x66, 0x6E, 0xA3] @ int_bytes 8 0
                 @ int_bytes 8 (8 * int (length [0x66 :: byte, 0x6E, 0xA3])))
              = [127, 129, 161, 116, 181, 85, 64, 81, 25, 218, 9, 158, 69, 12, 135, 138]"
    by (simp add: ghash_eval)
  show ?thesis
    unfolding gcm_tag_def Let_def example_schedule example_J0 example_inc32 ct example_H hash
    by (simp add: GCTR.simps example_mask xorBytes_def)
qed

text \<open>
  Claim C5, as stated, fails: the helper never reads the authentication tag. With the
  secret \<^verbatim>\<open>AAECAwQFBgcICQoLDA0ODxAREhMUFRYXGBkaGxwdHh8=\<close>, the bytes \<open>00\<close> to \<open>1F\<close>, and the
  payload \<open>01 02 03\<close>, the helper prints the three bytes \<open>66 6E A3\<close> of the ciphertext;
  the claim has it print nineteen bytes, these three and the sixteen bytes of the tag.
\<close>

theorem encrypt_counterexample:
  "exampleSecret = ''AAECAwQFBgcICQoLDA0ODxAREhMUFRYXGBkaGxwdHh8=''
   \<and> encrypt nodeCrypto base64 [1, 2, 3] exampleSecret = Inr [0x66, 0x6E, 0xA3]
   \<and> encrypt_tagged nodeCrypto base64 [1, 2, 3] exampleSecret
       = Inr [0x66, 0x6E, 0xA3,
              0x60, 0x63, 0x80, 0xF1, 0xD3, 0xD9, 0x12, 0xED,
              0xB5, 0x27, 0xF6, 0xEE, 0x31, 0x90, 0xE0, 0x33]
   \<and> encrypt nodeCrypto base64 [1, 2, 3] exampleSecret
       \<noteq> encrypt_tagged nodeCrypto base64 [1, 2, 3] exampleSecret"
  unfolding encrypt_node [where decode = base64 and encoded = exampleSecret,
      OF example_key example_key_length] example_ciphertext example_tag
  by (simp add: exampleSecret_def)

text \<open>
  Claim C5, amended. For every payload and every secret that decodes to 32 bytes, the
  helper prints the ciphertext of the payload under AES-256-GCM, with the secret as the
  key and the first 16 bytes of the secret as the initialisation vector, and nothing
  more: the output is as long as the payload, and it is what the claim has the helper
  print without its last sixteen bytes, the authentication tag, so the two are never
  equal. A secret that does not decode to 32 bytes makes the helper throw.
\<close>

theorem encrypt_ciphertext_only:
  assumes "decode encoded = key"
  shows "(length key = 32 \<longrightarrow>
            encrypt nodeCrypto decode data encoded
              = Inr (gcm_encrypt key (take 16 key) data)
          \<and> length (gcm_encrypt key (take 16 key) data) = length data
          \<and> encrypt_tagged nodeCrypto decode data encoded
              = Inr (gcm_encrypt key (take 16 key) data @ gcm_tag key (take 16 key) data)
          \<and> length (gcm_tag key (take 16 key) data) = 16
          \<and> encrypt nodeCrypto decode data encoded
              \<noteq> encrypt_tagged nodeCrypto decode data encoded)
       \<and> (length key \<noteq> 32 \<longrightarrow>
            encrypt nodeCrypto decode data encoded = Inl RangeError)"
proof (intro conjI impI)
  assume len: "length key = 32"
  show plain: "encrypt nodeCrypto decode data encoded
      = Inr (gcm_encrypt key (take 16 key) data)"
    using assms len by (rule encrypt_node(1))
  show tagged: "encrypt_tagged nodeCrypto decode data encoded
      = Inr (gcm_encrypt key (take 16 key) data @ gcm_tag key (take 16 key) data)"
    using assms len by (rule encrypt_node(2))
  show "length (gcm_encrypt key (take 16 key) data) = length data"
    using len by (rule length_gcm_encrypt)
  show tag: "length (gcm_tag key (take 16 key) data) = 16"
    using len by (rule length_gcm_tag)
  have "gcm_tag key (take 16 key) data \<noteq> []"
    using tag by auto
  then show "encrypt nodeCrypto decode data encoded
      \<noteq> encrypt_tagged nodeCrypto decode data encoded"
    unfolding plain tagged by simp
next
  assume "length key \<noteq> 32"
  then show "encrypt nodeCrypto decode data encoded = Inl RangeError"
    by (simp add: encrypt_def nodeCrypto_def assms)
qed

theorem encrypt_ciphertext_only_witness:
  "base64 exampleSecret = exampleKey
   \<and> length exampleKey = 32
   \<and> encrypt nodeCrypto base64 [0x68, 0x69] exampleSecret
       = Inr [0x0F, 0x05]
   \<and> base64 ''c2VjcmV0'' = [0x73, 0x65, 0x63, 0x72, 0x65, 0x74]
   \<and> encrypt nodeCrypto base64 [0x68, 0x69] ''c2VjcmV0'' = Inl RangeError"
proof -
  have short: "base64 ''c2VjcmV0'' = [0x73, 0x65, 0x63, 0x72, 0x65, 0x74]"
    by (simp add: base64_def unbase64_def)
  have ct: "gcm_encrypt exampleKey (take 16 exampleKey) [0x68, 0x69] = [0x0F, 0x05]"
    unfolding gcm_encrypt_def Let_def example_schedule example_J0 example_inc32
    by (simp add: GCTR.simps example_stream xorBytes_def)
  show ?thesis
    using encrypt_ciphertext_only [where decode = base64 and encoded = exampleSecret
          and data = "[0x68, 0x69]", OF example_key]
      encrypt_ciphertext_only [where decode = base64 and encoded = "''c2VjcmV0''"
          and data = "[0x68, 0x69]", OF short]
    by (simp add: example_key example_key_length ct short)
qed

section \<open>Acknowledgement of inbound datagrams\<close>

lemma grows_same: "dataOut s' = dataOut s \<Longrightarrow> sent s' = sent s \<Longrightarrow> grows env to s s'"
  by (simp add: grows_def)

lemma grows_trans:
  assumes "grows env to s s1" "grows env to s1 s2"
  shows "grows env to s s2"
proof -
  from assms(1) obtain r1 where r1: "dataOut s1 = dataOut s @ r1" "\<forall>x\<in>set r1. snd x = to"
    "passes (data_out env) \<longrightarrow> sent s1 = sent s @ r1"
    unfolding grows_def by blast
  from assms(2) obtain r2 where r2: "dataOut s2 = dataOut s1 @ r2" "\<forall>x\<in>set r2. snd x = to"
    "passes (data_out env) \<longrightarrow> sent s2 = sent s1 @ r2"
    unfolding grows_def by blast
  have "dataOut s2 = dataOut s @ (r1 @ r2)" "\<forall>x\<in>set (r1 @ r2). snd x = to"
    "passes (data_out env) \<longrightarrow> sent s2 = sent s @ (r1 @ r2)"
    using r1 r2 by auto
  then show ?thesis
    unfolding grows_def by blast
qed

lemma send_grows: "grows env to s (snd (send env d to s))"
  unfolding grows_def using send_traces [of env d to s]
  by (intro exI [of _ "[(d, to)]"]) simp

lemma sendFragments_grows:
  "grows env to s (snd (sendFragments env packet sp to i chunks s))"
proof (induction chunks arbitrary: i sp s)
  case Nil
  show ?case by (simp add: grows_same)
next
  case (Cons chunk rest)
  define sp1 where "sp1 = map_option (\<lambda>x. x\<lparr>split_index := i\<rparr>) sp"
  define s1 where "s1 = (if to = Client then s\<lparr>clientPacketIndex := clientPacketIndex s + 1\<rparr>
                else s\<lparr>serverPacketIndex := serverPacketIndex s + 1\<rparr>)"
  define s2 where "s2 = (if to = Client then s1\<lparr>clientSeqNumber := clientSeqNumber s1 + 1\<rparr>
                else s1\<lparr>serverSeqNumber := serverSeqNumber s1 + 1\<rparr>)"
  define datagram where "datagram =
     \<lparr>headerFlags = flag_valid,
      seqNumber = (if to = Client then clientSeqNumber s1 else serverSeqNumber s1),
      packets = [\<lparr>reliability = reliability packet, sub = chunk,
                  index = Some (if to = Client then clientPacketIndex s else serverPacketIndex s),
                  sequence = sequence packet, order = order packet, split = sp1\<rparr>]\<rparr>"
  obtain r3 s3 where sd: "sendDatagram env datagram to s2 = (r3, s3)"
    by (cases "sendDatagram env datagram to s2")
  have "grows env to s s2"
    by (rule grows_same) (simp_all add: s2_def s1_def)
  moreover have "grows env to s2 s3"
    using send_grows [of env to s2 "Datagram_export env datagram"] sd
    by (simp add: sendDatagram_def)
  ultimately have s3: "grows env to s s3"
    by (rule grows_trans)
  have run: "sendFragments env packet sp to i (chunk # rest) s
      = (case r3 of Inl e \<Rightarrow> (Inl e, s3)
         | Inr u \<Rightarrow> sendFragments env packet sp1 to (i + 1) rest s3)"
    using sd unfolding sendFragments.simps Let_def sp1_def s1_def s2_def datagram_def
    by (simp split: sum.splits)
  show ?case
  proof (cases r3)
    case (Inl e)
    show ?thesis
      unfolding run Inl using s3 by simp
  next
    case (Inr u)
    show ?thesis
      unfolding run Inr using grows_trans [OF s3 Cons.IH [of s3 sp1 "i + 1"]] by simp
  qed
qed

lemma sendPacket_grows: "grows env to s (snd (sendPacket env packet to s))"
proof (cases "mtuSize s - 60 = 0 \<and> int (length (sub packet)) \<noteq> 0")
  case True
  then show ?thesis
    by (simp add: sendPacket_def Let_def grows_same)
next
  case False
  show ?thesis
  proof (cases "if mtuSize s - 60 = 0 then Inr []
                else readFragments 0 (int (length (sub packet)) div (mtuSize s - 60))
                       (int (length (sub packet)) mod \<bar>mtuSize s - 60\<bar>) (mtuSize s - 60)
                       (newBuffer (sub packet)) []")
    case (Inl e)
    with False show ?thesis
      by (simp add: sendPacket_def Let_def grows_same)
  next
    case (Inr buffers)
    define s1 where "s1 = (if length buffers > 1
               then (if to = Client then s\<lparr>clientSplitID := clientSplitID s + 1\<rparr>
                     else s\<lparr>serverSplitID := serverSplitID s + 1\<rparr>)
               else s)"
    have "sendPacket env packet to s
        = sendFragments env packet
            (if length buffers > 1
             then Some \<lparr>split_count = length buffers,
                        split_id = (if to = Client then clientSplitID s
                                    else serverSplitID s) mod 65536,
                        split_index = 0\<rparr>
             else None) to 0 buffers s1"
      using False Inr unfolding sendPacket_def Let_def s1_def by (simp only: if_False sum.case)
    moreover have "grows env to s s1"
      by (rule grows_same) (simp_all add: s1_def)
    ultimately show ?thesis
      using grows_trans [OF _ sendFragments_grows] by simp
  qed
qed

lemma admitReliable_traces:
  "sent (snd (admitReliable packet from s)) = sent s"
  "dataOut (snd (admitReliable packet from s)) = dataOut s"
  by (simp_all add: admitReliable_def Let_def setReliableWindow_def setPacketIndexes_def
      split: option.splits prod.splits)

lemma reassembleSplit_traces:
  "sent (snd (reassembleSplit packet from s)) = sent s"
  "dataOut (snd (reassembleSplit packet from s)) = dataOut s"
  by (simp_all add: reassembleSplit_def Let_def setSplits_def
      split: option.splits prod.splits sum.splits)

lemma handleLoginPacket_traces:
  "sent (snd (handleLoginPacket env buffer s)) = sent s"
  "dataOut (snd (handleLoginPacket env buffer s)) = dataOut s"
  by (simp_all add: handleLoginPacket_def Let_def split: sum.splits)

lemma handleHandshakePacket_traces:
  "sent (snd (handleHandshakePacket env buffer s)) = sent s"
  "dataOut (snd (handleHandshakePacket env buffer s)) = dataOut s"
  by (simp_all add: handleHandshakePacket_def Let_def split: sum.splits option.splits)

lemma handleBedrock_traces:
  "sent (snd (handleBedrock env data from s)) = sent s
   \<and> dataOut (snd (handleBedrock env data from s)) = dataOut s"
proof (cases "BedrockPacket_header env (newBuffer data)")
  case (Inl e)
  then show ?thesis
    by (simp add: handleBedrock_def)
next
  case (Inr a)
  obtain i buffer where a: "a = (i, buffer)"
    by (cases a)
  obtain r1 s1 where login: "handleLoginPacket env buffer s = (r1, s1)"
    by (cases "handleLoginPacket env buffer s")
  have s1: "sent s1 = sent s" "dataOut s1 = dataOut s"
    using handleLoginPacket_traces [of env buffer s] login by simp_all
  show ?thesis
  proof (cases "from")
    case Client
    show ?thesis
      using s1
      by (simp add: handleBedrock_def Inr a Client login split: sum.splits prod.splits)
  next
    case Server
    show ?thesis
      by (simp add: handleBedrock_def Inr a Server handleHandshakePacket_traces)
  qed
qed

lemma handleBedrocks_traces:
  "sent (snd (handleBedrocks env batch from acc s)) = sent s
   \<and> dataOut (snd (handleBedrocks env batch from acc s)) = dataOut s"
proof (induction batch arbitrary: acc s)
  case Nil
  show ?case by simp
next
  case (Cons data rest)
  obtain r1 s1 where step: "handleBedrock env data from s = (r1, s1)"
    by (cases "handleBedrock env data from s")
  have "sent s1 = sent s" "dataOut s1 = dataOut s"
    using handleBedrock_traces [of env data "from" s] step by simp_all
  then show ?case
    by (cases r1) (simp_all add: step Cons.IH)
qed

lemma handleUnencryptedBatch_traces:
  "sent (snd (handleUnencryptedBatch env buffer from s)) = sent s
   \<and> dataOut (snd (handleUnencryptedBatch env buffer from s)) = dataOut s"
proof (cases "BatchPacket_from env buffer")
  case (Inl e)
  then show ?thesis by (simp add: handleUnencryptedBatch_def)
next
  case (Inr a)
  obtain batch buffer' where a: "a = (batch, buffer')"
    by (cases a)
  obtain r1 s1 where inner: "handleBedrocks env batch from [] s = (r1, s1)"
    by (cases "handleBedrocks env batch from [] s")
  have "sent s1 = sent s" "dataOut s1 = dataOut s"
    using handleBedrocks_traces [of env batch "from" "[]" s] inner by simp_all
  then show ?thesis
    by (cases r1) (simp_all add: handleUnencryptedBatch_def Inr a inner)
qed

lemma handleEncryptedBatch_traces:
  "sent (snd (handleEncryptedBatch env buffer from s)) = sent s
   \<and> dataOut (snd (handleEncryptedBatch env buffer from s)) = dataOut s"
proof (cases "if from = Client then clientBatch s else serverBatch s")
  case None
  then show ?thesis by (simp add: handleEncryptedBatch_def Let_def)
next
  case (Some rb)
  show ?thesis
  proof (cases "EncryptedBatch_from env rb buffer")
    case (Inl e)
    with Some show ?thesis by (simp add: handleEncryptedBatch_def Let_def)
  next
    case (Inr a)
    obtain batch buffer' where a: "a = (batch, buffer')"
      by (cases a)
    obtain r1 s1 where inner: "handleBedrocks env batch from [] s = (r1, s1)"
      by (cases "handleBedrocks env batch from [] s")
    have "sent s1 = sent s" "dataOut s1 = dataOut s"
      using handleBedrocks_traces [of env batch "from" "[]" s] inner by simp_all
    then show ?thesis
      using Some
      by (cases r1)
         (simp_all add: handleEncryptedBatch_def Let_def Inr a inner split: option.splits)
  qed
qed

lemma handleBatch_traces:
  "sent (snd (handleBatch env buffer from s)) = sent s"
  "dataOut (snd (handleBatch env buffer from s)) = dataOut s"
  by (simp_all add: handleBatch_def handleUnencryptedBatch_traces handleEncryptedBatch_traces)

lemma handlePacket_grows:
  "grows env (opposite from) s (snd (handlePacket env packet from s))"
proof -
  obtain r1 s1 where admit: "admitReliable packet from s = (r1, s1)"
    by (cases "admitReliable packet from s")
  have s1: "grows env (opposite from) s s1"
    using admitReliable_traces [of packet "from" s] admit by (simp add: grows_same)
  obtain r2 s2 where split: "reassembleSplit packet from s1 = (r2, s2)"
    by (cases "reassembleSplit packet from s1")
  have "grows env (opposite from) s1 s2"
    using reassembleSplit_traces [of packet "from" s1] split by (simp add: grows_same)
  with s1 have s2: "grows env (opposite from) s s2"
    by (rule grows_trans)
  show ?thesis
  proof (cases r1)
    case (Inl e)
    then show ?thesis by (simp add: handlePacket_def admit s1)
  next
    case r1: (Inr go)
    show ?thesis
    proof (cases go)
      case False
      with r1 show ?thesis by (simp add: handlePacket_def admit s1)
    next
      case True
      show ?thesis
      proof (cases r2)
        case (Inl e)
        with r1 True show ?thesis by (simp add: handlePacket_def admit split s2)
      next
        case r2: (Inr whole)
        show ?thesis
        proof (cases whole)
          case None
          with r1 True r2 show ?thesis by (simp add: handlePacket_def admit split s2)
        next
          case (Some packet1)
          show ?thesis
          proof (cases "header env (newBuffer (sub packet1))")
            case (Inl e)
            with r1 True r2 Some show ?thesis by (simp add: handlePacket_def admit split s2)
          next
            case (Inr a)
            obtain i buffer where a: "a = (i, buffer)"
              by (cases a)
            obtain r3 s3 where batch:
              "(if i = BatchPacket_id env then handleBatch env buffer from s2
                else (Inr (sub packet1), s2)) = (r3, s3)"
              by (cases "if i = BatchPacket_id env then handleBatch env buffer from s2
                else (Inr (sub packet1), s2)")
            have "grows env (opposite from) s2 s3"
              using batch handleBatch_traces [of env buffer "from" s2]
              by (auto simp: grows_same split: if_splits)
            with s2 have s3: "grows env (opposite from) s s3"
              by (rule grows_trans)
            have run: "handlePacket env packet from s
                = (case r3 of Inl e \<Rightarrow> (Inl e, s3)
                   | Inr sub1 \<Rightarrow> sendPacket env (packet1\<lparr>sub := sub1\<rparr>) (opposite from) s3)"
              using r1 True r2 Some Inr a batch
              by (simp add: handlePacket_def admit split split: sum.splits)
            show ?thesis
            proof (cases r3)
              case (Inl e)
              then show ?thesis by (simp add: run s3)
            next
              case (Inr sub1)
              then show ?thesis
                using grows_trans [OF s3 sendPacket_grows
                    [of env "opposite from" s3 "packet1\<lparr>sub := sub1\<rparr>"]]
                by (simp add: run)
            qed
          qed
        qed
      qed
    qed
  qed
qed

lemma handlePackets_grows:
  "grows env (opposite from) s (snd (handlePackets env ps from s))"
proof (induction ps arbitrary: s)
  case Nil
  show ?case by (simp add: grows_same)
next
  case (Cons packet ps)
  obtain r1 s1 where step: "handlePacket env packet from s = (r1, s1)"
    by (cases "handlePacket env packet from s")
  have s1: "grows env (opposite from) s s1"
    using handlePacket_grows [of env "from" s packet] step by simp
  show ?case
  proof (cases r1)
    case (Inl e)
    with s1 show ?thesis by (simp add: step)
  next
    case (Inr u)
    with grows_trans [OF s1 Cons.IH [of s1]] show ?thesis
      by (simp add: step)
  qed
qed

lemma handleDatagram_traces:
  "\<exists>rest. dataOut (snd (handleDatagram env datagram from s))
            = dataOut s @ (ACK_export env [seqNumber datagram], from) # rest
         \<and> (\<forall>x\<in>set rest. snd x = opposite from)
         \<and> (passes (data_out env)
              \<longrightarrow> sent (snd (handleDatagram env datagram from s))
                    = sent s @ (ACK_export env [seqNumber datagram], from) # rest)"
proof -
  obtain r1 s1 where ack: "sendAck env [seqNumber datagram] from s = (r1, s1)"
    by (cases "sendAck env [seqNumber datagram] from s")
  have d1: "dataOut s1 = dataOut s @ [(ACK_export env [seqNumber datagram], from)]"
    and w1: "passes (data_out env)
      \<Longrightarrow> sent s1 = sent s @ [(ACK_export env [seqNumber datagram], from)]"
    using send_traces [of env "ACK_export env [seqNumber datagram]" "from" s] ack
    by (simp_all add: sendAck_def)
  have pass_ok: "passes (data_out env) \<Longrightarrow> r1 = Inr ()"
    using ack by (simp add: sendAck_def send_def passes_def Let_def)
  show ?thesis
  proof (cases r1)
    case (Inl e)
    then have "snd (handleDatagram env datagram from s) = s1"
      by (simp add: handleDatagram_def ack)
    with d1 w1 pass_ok Inl show ?thesis
      by (intro exI [of _ "[]"]) simp
  next
    case (Inr u)
    then have run: "snd (handleDatagram env datagram from s)
        = snd (handlePackets env (packets datagram) from s1)"
      by (simp add: handleDatagram_def ack)
    from handlePackets_grows [of env "from" s1 "packets datagram"] obtain rest where
      "dataOut (snd (handlePackets env (packets datagram) from s1)) = dataOut s1 @ rest"
      "\<forall>x\<in>set rest. snd x = opposite from"
      "passes (data_out env)
         \<longrightarrow> sent (snd (handlePackets env (packets datagram) from s1)) = sent s1 @ rest"
      unfolding grows_def by blast
    with d1 w1 show ?thesis
      unfolding run by (intro exI [of _ rest]) simp
  qed
qed

text \<open>
  Claim C7. \<open>handleDatagram\<close> handles the packets of the datagram on the session that
  \<open>sendAck\<close> leaves, and not at all when \<open>sendAck\<close> throws. It emits, before anything
  else, one event \<^verbatim>\<open>data-out\<close> with the acknowledgement of the single sequence number
  of the datagram, for the origin the datagram came from; every later event of the call
  is for the opposite side, also when the call ends with an error. When the subscribers
  let every event through, this is the trace of what was sent: the acknowledgement
  first, to the origin, and after it only datagrams to the opposite side.
\<close>

theorem handleDatagram_acks:
  "handleDatagram env datagram from s
     = (case sendAck env [seqNumber datagram] from s of
          (Inl e, s1) \<Rightarrow> (Inl e, s1)
        | (Inr u, s1) \<Rightarrow> handlePackets env (packets datagram) from s1)
   \<and> (\<exists>rest. dataOut (snd (handleDatagram env datagram from s))
                = dataOut s @ (ACK_export env [seqNumber datagram], from) # rest
             \<and> (\<forall>x\<in>set rest. snd x = opposite from)
             \<and> (passes (data_out env)
                  \<longrightarrow> sent (snd (handleDatagram env datagram from s))
                        = sent s @ (ACK_export env [seqNumber datagram], from) # rest))"
proof
  show "handleDatagram env datagram from s
     = (case sendAck env [seqNumber datagram] from s of
          (Inl e, s1) \<Rightarrow> (Inl e, s1)
        | (Inr u, s1) \<Rightarrow> handlePackets env (packets datagram) from s1)"
    by (simp add: handleDatagram_def)
  show "\<exists>rest. dataOut (snd (handleDatagram env datagram from s))
                = dataOut s @ (ACK_export env [seqNumber datagram], from) # rest
             \<and> (\<forall>x\<in>set rest. snd x = opposite from)
             \<and> (passes (data_out env)
                  \<longrightarrow> sent (snd (handleDatagram env datagram from s))
                        = sent s @ (ACK_export env [seqNumber datagram], from) # rest)"
    by (rule handleDatagram_traces)
qed

theorem handleDatagram_acks_witness:
  "passes (data_out testEnv)
   \<and> (\<exists>rest. sent (snd (handleDatagram testEnv datagram5 Client mtu64))
               = ([0xC0, 5, 0, 0], Client) # rest
            \<and> list_all (\<lambda>x. snd x = Server) rest)"
proof -
  have hook: "passes (data_out testEnv)"
    by (simp add: passes_def testEnv_def)
  have ack: "ACK_export testEnv [seqNumber datagram5] = [0xC0, 5, 0, 0]"
    by (simp add: testEnv_def datagram5_def writeLTriad_def)
  from conjunct2 [OF handleDatagram_acks [of testEnv datagram5 Client mtu64]] hook
  show ?thesis
    unfolding ack by (auto simp: mtu64_def newSession_def list_all_iff)
qed


end
